theory Spec2Isabelle
  imports Complex_Main
begin

section \<open>Python and SQL values\<close>

text \<open>
  A spreadsheet cell as pandas hands it to the scripts: an empty cell is NaN, a numeric
  cell is a number, a text cell is a string. The reader also turns the texts of its NA
  list (the empty text, N/A, NA, NULL, nan and their like) into NaN, so such a text
  arrives as \<open>Empty\<close>. Numbers are rationals: the rounding of binary floating point is
  not modelled.
\<close>

datatype cell = Empty | Num rat | Text string

text \<open>What \<open>float(...)\<close> returns: a number or NaN.\<close>

datatype pyfloat = Fin rat | NaN

datatype error = ValueError | AttributeError | OverflowError

text \<open>
  The Python built-ins whose results on arbitrary text are not part of the scripts:
  \<open>str\<close> of a number, \<open>int\<close> of a text and \<open>float\<close> of a text (\<open>None\<close> where
  Python raises ValueError). The fourth is what numpy makes of a quantity beyond the
  64-bit integers, which depends on the dtype pandas gave the column: it wraps on an
  unsigned column and raises OverflowError on a column of objects.
\<close>

record pylib =
  str_num :: "rat \<Rightarrow> string"
  int_str :: "string \<Rightarrow> int option"
  float_str :: "string \<Rightarrow> pyfloat option"
  int_overflow :: "cell \<Rightarrow> error + int"

subsection \<open>Strings\<close>

text \<open>
  \<open>str.strip()\<close> removes leading and trailing whitespace; the whitespace characters
  below 256 are 9 to 13, 28 to 32, 133 and 160.
\<close>

definition is_space :: "char \<Rightarrow> bool" where
  "is_space c = (let n = (of_char c :: nat) in
     (9 \<le> n \<and> n \<le> 13) \<or> (28 \<le> n \<and> n \<le> 32) \<or> n = 133 \<or> n = 160)"

definition strip :: "string \<Rightarrow> string" where
  "strip s = rev (dropWhile is_space (rev (dropWhile is_space s)))"

text \<open>
  \<open>str.upper()\<close> on ASCII text: the letters a to z move to A to Z. Python's
  \<open>upper\<close> also moves letters beyond ASCII, some of them out of the range of
  \<open>char\<close>; the statements about tokens and brand codes are therefore made for ASCII
  labels (\<open>is_ascii\<close> below).
\<close>

definition upper_char :: "char \<Rightarrow> char" where
  "upper_char c = (let n = (of_char c :: nat) in
     if 97 \<le> n \<and> n \<le> 122 then char_of (n - 32) else c)"

definition upper :: "string \<Rightarrow> string" where
  "upper s = map upper_char s"

text \<open>\<open>str\<close> of a non-negative integer, as the f-string \<open>{count + 1}\<close> renders it.\<close>

definition digit_char :: "nat \<Rightarrow> char" where
  "digit_char d = char_of (48 + d)"

fun str_nat :: "nat \<Rightarrow> string" where
  "str_nat n = (if n < 10 then [digit_char n] else str_nat (n div 10) @ [digit_char (n mod 10)])"

declare str_nat.simps [simp del]

text \<open>
  SQL \<open>LIKE\<close>: in the pattern \<open>%\<close> matches any run of characters, \<open>_\<close> any one
  character, and a backslash takes the next pattern character literally. A pattern that
  ends in a lone backslash is rejected by the database; the scripts' patterns end in
  \<open>%\<close> after a location code and never do, and the model answers no match there.
\<close>

function like_match :: "string \<Rightarrow> string \<Rightarrow> bool" where
  "like_match [] s = (s = [])"
| "like_match (c # p) s =
     (if c = CHR ''%'' then
        (like_match p s \<or> (case s of [] \<Rightarrow> False | d # s' \<Rightarrow> like_match (c # p) s'))
      else if c = CHR ''_'' then
        (case s of [] \<Rightarrow> False | d # s' \<Rightarrow> like_match p s')
      else if c = CHR 0x5C then
        (case p of [] \<Rightarrow> False
         | e # p' \<Rightarrow> (case s of [] \<Rightarrow> False | d # s' \<Rightarrow> e = d \<and> like_match p' s'))
      else
        (case s of [] \<Rightarrow> False | d # s' \<Rightarrow> c = d \<and> like_match p s'))"
  by pat_completeness auto
termination
  by (relation "measure (\<lambda>(p, s). length p + length s)") auto

declare like_match.simps(2) [simp del]

section \<open>The Loader\<close>

text \<open>
  A row of the sheet. UPC, Brand, Gym, Quantity, Ship Month and Description are read with
  \<open>row['...']\<close>; the other columns are read with \<open>row.get\<close> and a default, so the
  column itself may be missing from the sheet (\<open>None\<close>).
\<close>

record row =
  r_upc :: cell
  r_brand :: cell
  r_gym :: cell
  r_quantity :: cell
  r_ship_month :: cell
  r_description :: cell
  r_product_number :: "cell option"
  r_color :: "cell option"
  r_size :: "cell option"
  r_wholesale :: "cell option"
  r_retail :: "cell option"

text \<open>A row after cleaning: the UPC is text and the quantity an integer.\<close>

record crow =
  c_upc :: string
  c_brand :: cell
  c_gym :: cell
  c_quantity :: int
  c_ship_month :: cell
  c_description :: cell
  c_product_number :: "cell option"
  c_color :: "cell option"
  c_size :: "cell option"
  c_wholesale :: "cell option"
  c_retail :: "cell option"

text \<open>\<open>df.dropna(subset=['UPC', 'Brand', 'Gym', 'Quantity'])\<close>\<close>

definition has_required :: "row \<Rightarrow> bool" where
  "has_required r =
     (r_upc r \<noteq> Empty \<and> r_brand r \<noteq> Empty \<and> r_gym r \<noteq> Empty \<and> r_quantity r \<noteq> Empty)"

definition dropna :: "row list \<Rightarrow> row list" where
  "dropna df = filter has_required df"

text \<open>
  \<open>astype(str)\<close> and \<open>astype(int)\<close> on one cell. The latter yields a 64-bit
  integer: it truncates a number towards zero, reads a text with \<open>int\<close> and raises
  ValueError on a text that is no integer or on NaN; where the integer does not fit into
  64 bits the outcome is that of \<open>int_overflow\<close>.
\<close>

definition int64_ok :: "int \<Rightarrow> bool" where
  "int64_ok n = (- (2 ^ 63) \<le> n \<and> n < 2 ^ 63)"

fun astype_str :: "pylib \<Rightarrow> cell \<Rightarrow> string" where
  "astype_str L Empty = ''nan''"
| "astype_str L (Num q) = str_num L q"
| "astype_str L (Text s) = s"

definition trunc_int :: "rat \<Rightarrow> int" where
  "trunc_int q = (if 0 \<le> q then \<lfloor>q\<rfloor> else \<lceil>q\<rceil>)"

fun astype_int :: "pylib \<Rightarrow> cell \<Rightarrow> error + int" where
  "astype_int L Empty = Inl ValueError"
| "astype_int L (Num q) =
     (if int64_ok (trunc_int q) then Inr (trunc_int q) else int_overflow L (Num q))"
| "astype_int L (Text s) =
     (case int_str L s of
        None \<Rightarrow> Inl ValueError
      | Some n \<Rightarrow> if int64_ok n then Inr n else int_overflow L (Text s))"

definition clean_row :: "pylib \<Rightarrow> row \<Rightarrow> error + crow" where
  "clean_row L r =
     (case astype_int L (r_quantity r) of
        Inl e \<Rightarrow> Inl e
      | Inr n \<Rightarrow> Inr \<lparr>c_upc = strip (astype_str L (r_upc r)), c_brand = r_brand r,
          c_gym = r_gym r, c_quantity = n, c_ship_month = r_ship_month r,
          c_description = r_description r, c_product_number = r_product_number r,
          c_color = r_color r, c_size = r_size r, c_wholesale = r_wholesale r,
          c_retail = r_retail r\<rparr>)"

fun convert_rows :: "pylib \<Rightarrow> row list \<Rightarrow> error + crow list" where
  "convert_rows L [] = Inr []"
| "convert_rows L (r # rs) =
     (case clean_row L r of
        Inl e \<Rightarrow> Inl e
      | Inr c \<Rightarrow> (case convert_rows L rs of Inl e \<Rightarrow> Inl e | Inr cs \<Rightarrow> Inr (c # cs)))"

definition clean :: "pylib \<Rightarrow> row list \<Rightarrow> error + crow list" where
  "clean L df = convert_rows L (dropna df)"

section \<open>The database\<close>

text \<open>
  The tables the scripts touch, each a list of rows. A column that a query tests for NULL
  or that an aggregate skips is optional; attribute columns of a product hold the cell
  that was passed to the driver.
\<close>

record season =
  s_id :: int
  s_name :: string
  s_status :: string

record product =
  p_id :: int
  p_upc :: "string option"
  p_name :: cell
  p_sku :: cell
  p_color :: cell
  p_size :: cell
  p_wholesale_cost :: cell
  p_msrp :: cell
  p_brand_id :: "int option"
  p_season_id :: "int option"
  p_active :: bool

record order =
  o_id :: int
  o_order_number :: string
  o_season_id :: "int option"
  o_brand_id :: int
  o_location_id :: int
  o_ship_date :: string
  o_order_type :: string
  o_status :: string
  o_created_by :: int
  o_current_total :: "pyfloat option"

record order_item =
  i_order_id :: int
  i_product_id :: int
  i_quantity :: int
  i_unit_cost :: pyfloat
  i_line_total :: "pyfloat option"

record db =
  seasons :: "season list"
  brands :: "(int \<times> string) list"
  locations :: "(int \<times> string) list"
  products :: "product list"
  orders :: "order list"
  order_items :: "order_item list"

text \<open>
  A connection: the committed state and the state the open transaction works on.
  Every statement acts on the working state; \<open>commit\<close> publishes it and \<open>rollback\<close>
  discards it.
\<close>

record conn =
  committed :: db
  working :: db

definition connect :: "db \<Rightarrow> conn" where
  "connect d = \<lparr>committed = d, working = d\<rparr>"

definition commit :: "conn \<Rightarrow> conn" where
  "commit c = c\<lparr>committed := working c\<rparr>"

definition rollback :: "conn \<Rightarrow> conn" where
  "rollback c = c\<lparr>working := committed c\<rparr>"

text \<open>
  The schema is not part of the sources: what \<open>RETURNING id\<close> yields for a new row is
  taken to be an identifier above every identifier of the table.
\<close>

definition next_id :: "int list \<Rightarrow> int" where
  "next_id ids = fold max ids 0 + 1"

text \<open>A dict comprehension over fetched rows: a later row overrides an earlier one.\<close>

definition dict_of :: "('k \<times> 'v) list \<Rightarrow> ('k \<rightharpoonup> 'v)" where
  "dict_of kvs = map_of (rev kvs)"

text \<open>
  \<open>x = ids.get(label)\<close> followed by the test \<open>not x\<close>: the label resolves when it is a
  text key of the dict and its identifier is truthy (None and 0 are falsy). The result
  is the label's text with the identifier.
\<close>

fun resolve :: "(string \<rightharpoonup> int) \<Rightarrow> cell \<Rightarrow> (string \<times> int) option" where
  "resolve ids (Text s) =
     (case ids s of None \<Rightarrow> None | Some i \<Rightarrow> if i = 0 then None else Some (s, i))"
| "resolve ids _ = None"

section \<open>The two imports\<close>

text \<open>
  The F25 and the S26 script differ in their tables, in the season's name and how it is
  found (an upsert in F25, a select followed by an insert in S26), in how a ship period is
  resolved and in the year of the order number.
\<close>

record config =
  brand_map :: "(string \<times> string) list"
  location_map :: "(string \<times> string) list"
  season_name :: string
  season_by_upsert :: bool
  ship_period :: "cell \<Rightarrow> error + string \<times> string"
  year_suffix :: string

subsection \<open>Stage 1: the season\<close>

definition insert_season :: "string \<Rightarrow> db \<Rightarrow> db \<times> int" where
  "insert_season nm d =
     (let i = next_id (map s_id (seasons d))
      in (d\<lparr>seasons := seasons d @ [\<lparr>s_id = i, s_name = nm, s_status = ''ordering''\<rparr>]\<rparr>, i))"

text \<open>F25: \<open>INSERT ... ON CONFLICT (name) DO UPDATE SET name = 'Fall 2025' RETURNING id\<close>\<close>

definition upsert_season :: "string \<Rightarrow> db \<Rightarrow> db \<times> int" where
  "upsert_season nm d =
     (case find (\<lambda>s. s_name s = nm) (seasons d) of
        Some s \<Rightarrow>
          (d\<lparr>seasons := map (\<lambda>t. if s_name t = nm then t\<lparr>s_name := nm\<rparr> else t) (seasons d)\<rparr>,
           s_id s)
      | None \<Rightarrow> insert_season nm d)"

text \<open>S26: \<open>SELECT id FROM seasons WHERE name = 'Spring 2026'\<close>, then an insert if no row
  came back.\<close>

definition get_or_insert_season :: "string \<Rightarrow> db \<Rightarrow> db \<times> int" where
  "get_or_insert_season nm d =
     (case find (\<lambda>s. s_name s = nm) (seasons d) of
        Some s \<Rightarrow> (d, s_id s)
      | None \<Rightarrow> insert_season nm d)"

definition season_stage :: "config \<Rightarrow> db \<Rightarrow> db \<times> int" where
  "season_stage cfg d =
     (if season_by_upsert cfg then upsert_season (season_name cfg) d
      else get_or_insert_season (season_name cfg) d)"

subsection \<open>Stages 2 and 3: brand and location identifiers\<close>

text \<open>
  \<open>for excel_name, db_name in MAP.items(): if db_name in db_rows: ids[excel_name] =
  db_rows[db_name]\<close>, for the brands by name and for the locations by code.
\<close>

definition map_ids :: "(string \<times> string) list \<Rightarrow> (string \<rightharpoonup> int) \<Rightarrow> (string \<rightharpoonup> int)" where
  "map_ids tbl dbm =
     fold (\<lambda>(excel_name, db_name) ids.
             case dbm db_name of Some i \<Rightarrow> ids(excel_name \<mapsto> i) | None \<Rightarrow> ids)
          tbl Map.empty"

definition get_brand_ids :: "config \<Rightarrow> db \<Rightarrow> (string \<rightharpoonup> int)" where
  "get_brand_ids cfg d = map_ids (brand_map cfg) (dict_of (map (\<lambda>(i, n). (n, i)) (brands d)))"

definition get_location_ids :: "config \<Rightarrow> db \<Rightarrow> (string \<rightharpoonup> int)" where
  "get_location_ids cfg d =
     map_ids (location_map cfg) (dict_of (map (\<lambda>(i, c). (c, i)) (locations d)))"

subsection \<open>Stage 4: products\<close>

text \<open>\<open>SELECT id, upc FROM products WHERE upc IS NOT NULL\<close> as a dict from UPC to id.\<close>

definition existing_products :: "db \<Rightarrow> (string \<rightharpoonup> int)" where
  "existing_products d =
     dict_of (concat (map (\<lambda>p. case p_upc p of None \<Rightarrow> [] | Some u \<Rightarrow> [(u, p_id p)])
                          (products d)))"

text \<open>\<open>df.drop_duplicates(subset=['UPC'])\<close>: the first row of each UPC.\<close>

fun drop_duplicates_upc :: "string list \<Rightarrow> crow list \<Rightarrow> crow list" where
  "drop_duplicates_upc seen [] = []"
| "drop_duplicates_upc seen (r # rs) =
     (if c_upc r \<in> set seen then drop_duplicates_upc seen rs
      else r # drop_duplicates_upc (c_upc r # seen) rs)"

text \<open>\<open>row.get(column, default)\<close>\<close>

definition row_get :: "cell option \<Rightarrow> cell \<Rightarrow> cell" where
  "row_get v dflt = (case v of None \<Rightarrow> dflt | Some c \<Rightarrow> c)"

text \<open>
  \<open>INSERT INTO products ... ON CONFLICT (upc) DO UPDATE SET upc = EXCLUDED.upc
  RETURNING id\<close>: a row with this UPC keeps everything but its UPC, which is set to the
  same value again.
\<close>

definition insert_product :: "string \<Rightarrow> crow \<Rightarrow> int \<Rightarrow> int \<Rightarrow> db \<Rightarrow> db \<times> int" where
  "insert_product upc r brand_id season_id d =
     (case find (\<lambda>p. p_upc p = Some upc) (products d) of
        Some q \<Rightarrow>
          (d\<lparr>products := map (\<lambda>p. if p_upc p = Some upc then p\<lparr>p_upc := Some upc\<rparr> else p)
                              (products d)\<rparr>,
           p_id q)
      | None \<Rightarrow>
          (let i = next_id (map p_id (products d))
           in (d\<lparr>products := products d @
                 [\<lparr>p_id = i, p_upc = Some upc, p_name = c_description r,
                   p_sku = row_get (c_product_number r) (Text []),
                   p_color = row_get (c_color r) (Text []),
                   p_size = row_get (c_size r) (Text []),
                   p_wholesale_cost = row_get (c_wholesale r) (Num 0),
                   p_msrp = row_get (c_retail r) (Num 0),
                   p_brand_id = Some brand_id, p_season_id = Some season_id,
                   p_active = True\<rparr>]\<rparr>, i)))"

text \<open>The loop state: the connection, \<open>product_ids\<close> and \<open>products_created\<close>.\<close>

type_synonym pstate = "conn \<times> (string \<rightharpoonup> int) \<times> nat"

definition product_step ::
  "(string \<rightharpoonup> int) \<Rightarrow> (string \<rightharpoonup> int) \<Rightarrow> int \<Rightarrow> crow \<Rightarrow> pstate \<Rightarrow> pstate" where
  "product_step existing brand_ids season_id r st =
     (case st of (c, product_ids, products_created) \<Rightarrow>
        (let upc = strip (c_upc r) in
         case existing upc of
           Some i \<Rightarrow> (c, product_ids(upc \<mapsto> i), products_created)
         | None \<Rightarrow>
             (case resolve brand_ids (c_brand r) of
                None \<Rightarrow> st
              | Some (brand_name, brand_id) \<Rightarrow>
                  (case insert_product upc r brand_id season_id (working c) of
                     (d, i) \<Rightarrow>
                       (c\<lparr>working := d\<rparr>, product_ids(upc \<mapsto> i), products_created + 1)))))"

fun product_loop ::
  "(string \<rightharpoonup> int) \<Rightarrow> (string \<rightharpoonup> int) \<Rightarrow> int \<Rightarrow> crow list \<Rightarrow> pstate \<Rightarrow> pstate" where
  "product_loop existing brand_ids season_id [] st = st"
| "product_loop existing brand_ids season_id (r # rs) st =
     product_loop existing brand_ids season_id rs
       (product_step existing brand_ids season_id r st)"

definition product_stage :: "(string \<rightharpoonup> int) \<Rightarrow> int \<Rightarrow> crow list \<Rightarrow> conn \<Rightarrow> pstate" where
  "product_stage brand_ids season_id df c =
     product_loop (existing_products (working c)) brand_ids season_id
       (drop_duplicates_upc [] df) (c, Map.empty, 0)"

subsection \<open>Stage 5: orders\<close>

text \<open>
  \<open>df.groupby(['Brand', 'Gym', 'Ship Month'])\<close> yields one group for each key triple
  without NaN, in ascending order of the keys: column by column, numbers before texts,
  texts by character code.
\<close>

type_synonym gkey = "cell \<times> cell \<times> cell"

fun str_le :: "string \<Rightarrow> string \<Rightarrow> bool" where
  "str_le [] t = True"
| "str_le (a # s) [] = False"
| "str_le (a # s) (b # t) = ((of_char a :: nat) < of_char b \<or> (a = b \<and> str_le s t))"

fun cell_le :: "cell \<Rightarrow> cell \<Rightarrow> bool" where
  "cell_le (Num a) (Num b) = (a \<le> b)"
| "cell_le (Num a) (Text t) = True"
| "cell_le (Text s) (Num b) = False"
| "cell_le (Text s) (Text t) = str_le s t"
| "cell_le x Empty = True"
| "cell_le Empty y = False"

definition cell_less :: "cell \<Rightarrow> cell \<Rightarrow> bool" where
  "cell_less x y = (cell_le x y \<and> x \<noteq> y)"

fun key_le :: "gkey \<Rightarrow> gkey \<Rightarrow> bool" where
  "key_le (b1, g1, s1) (b2, g2, s2) =
     (cell_less b1 b2 \<or> (b1 = b2 \<and> (cell_less g1 g2 \<or> (g1 = g2 \<and> cell_le s1 s2))))"

fun insert_key :: "gkey \<Rightarrow> gkey list \<Rightarrow> gkey list" where
  "insert_key k [] = [k]"
| "insert_key k (x # xs) = (if key_le k x then k # x # xs else x # insert_key k xs)"

definition sort_keys :: "gkey list \<Rightarrow> gkey list" where
  "sort_keys ks = foldr insert_key ks []"

definition row_key :: "crow \<Rightarrow> gkey" where
  "row_key r = (c_brand r, c_gym r, c_ship_month r)"

definition groupby :: "crow list \<Rightarrow> gkey list" where
  "groupby df =
     sort_keys (remdups (filter (\<lambda>(b, g, s). b \<noteq> Empty \<and> g \<noteq> Empty \<and> s \<noteq> Empty)
                                (map row_key df)))"

text \<open>\<open>f"{month_abbr}25-{brand_code}-{loc_code}"\<close>, with the year of the import.\<close>

definition base_number :: "config \<Rightarrow> string \<Rightarrow> string \<Rightarrow> string \<Rightarrow> string" where
  "base_number cfg month_abbr brand gym =
     month_abbr @ year_suffix cfg @ ''-'' @ upper (take 3 brand) @ ''-'' @
     (case dict_of (location_map cfg) gym of Some code \<Rightarrow> code | None \<Rightarrow> ''UNK'')"

text \<open>\<open>SELECT COUNT(*) FROM orders WHERE order_number LIKE %s\<close> with the order number
  followed by \<open>%\<close>.\<close>

definition count_like :: "string \<Rightarrow> db \<Rightarrow> nat" where
  "count_like order_number d =
     length (filter (\<lambda>x. like_match (order_number @ ''%'') (o_order_number x)) (orders d))"

definition final_number :: "string \<Rightarrow> nat \<Rightarrow> string" where
  "final_number order_number count =
     (if count > 0 then order_number @ ''-'' @ str_nat (count + 1) else order_number)"

text \<open>
  \<open>INSERT INTO orders (...) VALUES (%s, %s, %s, %s, %s, 'preseason', 'draft', 1)
  RETURNING id\<close>; the total, which the statement does not name, is left NULL.
\<close>

definition insert_order :: "string \<Rightarrow> int \<Rightarrow> int \<Rightarrow> int \<Rightarrow> string \<Rightarrow> db \<Rightarrow> db \<times> int" where
  "insert_order order_number season_id brand_id location_id ship_date d =
     (let i = next_id (map o_id (orders d))
      in (d\<lparr>orders := orders d @
            [\<lparr>o_id = i, o_order_number = order_number, o_season_id = Some season_id,
              o_brand_id = brand_id, o_location_id = location_id, o_ship_date = ship_date,
              o_order_type = ''preseason'', o_status = ''draft'', o_created_by = 1,
              o_current_total = None\<rparr>]\<rparr>, i))"

text \<open>The loop state: the connection, \<open>order_map\<close> and \<open>orders_created\<close>. A step that
  raises returns the error with the connection as the exception found it.\<close>

type_synonym ostate = "conn \<times> (gkey \<rightharpoonup> int) \<times> nat"

definition order_step ::
  "config \<Rightarrow> int \<Rightarrow> (string \<rightharpoonup> int) \<Rightarrow> (string \<rightharpoonup> int) \<Rightarrow> gkey \<Rightarrow> ostate
     \<Rightarrow> error \<times> conn + ostate" where
  "order_step cfg season_id brand_ids location_ids key st =
     (case st of (c, order_map, orders_created) \<Rightarrow>
      case key of (brand, gym, ship_month) \<Rightarrow>
      case resolve brand_ids brand of
        None \<Rightarrow> Inr st
      | Some (brand_name, brand_id) \<Rightarrow>
      case resolve location_ids gym of
        None \<Rightarrow> Inr st
      | Some (gym_name, location_id) \<Rightarrow>
      case ship_period cfg ship_month of
        Inl e \<Rightarrow> Inl (e, c)
      | Inr (ship_date, month_abbr) \<Rightarrow>
          (let order_number = base_number cfg month_abbr brand_name gym_name;
               count = count_like order_number (working c)
           in case insert_order (final_number order_number count) season_id brand_id
                     location_id ship_date (working c) of
                (d, order_id) \<Rightarrow>
                  Inr (c\<lparr>working := d\<rparr>, order_map(key \<mapsto> order_id), orders_created + 1)))"

fun order_loop ::
  "config \<Rightarrow> int \<Rightarrow> (string \<rightharpoonup> int) \<Rightarrow> (string \<rightharpoonup> int) \<Rightarrow> gkey list \<Rightarrow> ostate
     \<Rightarrow> error \<times> conn + ostate" where
  "order_loop cfg season_id brand_ids location_ids [] st = Inr st"
| "order_loop cfg season_id brand_ids location_ids (k # ks) st =
     (case order_step cfg season_id brand_ids location_ids k st of
        Inl x \<Rightarrow> Inl x
      | Inr st' \<Rightarrow> order_loop cfg season_id brand_ids location_ids ks st')"

definition order_stage ::
  "config \<Rightarrow> int \<Rightarrow> (string \<rightharpoonup> int) \<Rightarrow> (string \<rightharpoonup> int) \<Rightarrow> crow list \<Rightarrow> conn
     \<Rightarrow> error \<times> conn + ostate" where
  "order_stage cfg season_id brand_ids location_ids df c =
     order_loop cfg season_id brand_ids location_ids (groupby df) (c, Map.empty, 0)"

subsection \<open>Stage 6: order items\<close>

text \<open>\<open>not x\<close> for an identifier that \<open>dict.get\<close> returned: None and 0 are falsy.\<close>

fun truthy_id :: "int option \<Rightarrow> int option" where
  "truthy_id None = None"
| "truthy_id (Some i) = (if i = 0 then None else Some i)"

text \<open>\<open>x or 0\<close>: zero and the empty text are falsy, NaN is not.\<close>

fun or_zero :: "cell \<Rightarrow> cell" where
  "or_zero Empty = Empty"
| "or_zero (Num q) = (if q = 0 then Num 0 else Num q)"
| "or_zero (Text s) = (if s = [] then Num 0 else Text s)"

text \<open>\<open>float(x)\<close>: NaN stays NaN, and a text that is no number raises ValueError.\<close>

fun py_float :: "pylib \<Rightarrow> cell \<Rightarrow> error + pyfloat" where
  "py_float L Empty = Inr NaN"
| "py_float L (Num q) = Inr (Fin q)"
| "py_float L (Text s) = (case float_str L s of None \<Rightarrow> Inl ValueError | Some f \<Rightarrow> Inr f)"

text \<open>\<open>unit_cost * quantity\<close>\<close>

fun py_mul :: "pyfloat \<Rightarrow> int \<Rightarrow> pyfloat" where
  "py_mul (Fin a) n = Fin (a * of_int n)"
| "py_mul NaN n = NaN"

definition insert_item :: "int \<Rightarrow> int \<Rightarrow> int \<Rightarrow> pyfloat \<Rightarrow> pyfloat \<Rightarrow> db \<Rightarrow> db" where
  "insert_item order_id product_id quantity unit_cost line_total d =
     d\<lparr>order_items := order_items d @
        [\<lparr>i_order_id = order_id, i_product_id = product_id, i_quantity = quantity,
          i_unit_cost = unit_cost, i_line_total = Some line_total\<rparr>]\<rparr>"

text \<open>The loop state: the connection, \<open>items_added\<close> and \<open>items_skipped\<close>.\<close>

type_synonym istate = "conn \<times> nat \<times> nat"

definition item_step ::
  "pylib \<Rightarrow> (string \<rightharpoonup> int) \<Rightarrow> (gkey \<rightharpoonup> int) \<Rightarrow> crow \<Rightarrow> istate \<Rightarrow> error \<times> conn + istate" where
  "item_step L product_ids order_map r st =
     (case st of (c, items_added, items_skipped) \<Rightarrow>
      case truthy_id (product_ids (strip (c_upc r))) of
        None \<Rightarrow> Inr (c, items_added, items_skipped + 1)
      | Some product_id \<Rightarrow>
      case truthy_id (order_map (row_key r)) of
        None \<Rightarrow> Inr (c, items_added, items_skipped + 1)
      | Some order_id \<Rightarrow>
      case py_float L (or_zero (row_get (c_wholesale r) (Num 0))) of
        Inl e \<Rightarrow> Inl (e, c)
      | Inr unit_cost \<Rightarrow>
          (let quantity = c_quantity r;
               line_total = py_mul unit_cost quantity
           in Inr (c\<lparr>working := insert_item order_id product_id quantity unit_cost line_total
                                   (working c)\<rparr>,
                   items_added + 1, items_skipped)))"

fun item_loop ::
  "pylib \<Rightarrow> (string \<rightharpoonup> int) \<Rightarrow> (gkey \<rightharpoonup> int) \<Rightarrow> crow list \<Rightarrow> istate
     \<Rightarrow> error \<times> conn + istate" where
  "item_loop L product_ids order_map [] st = Inr st"
| "item_loop L product_ids order_map (r # rs) st =
     (case item_step L product_ids order_map r st of
        Inl x \<Rightarrow> Inl x
      | Inr st' \<Rightarrow> item_loop L product_ids order_map rs st')"

definition item_stage ::
  "pylib \<Rightarrow> (string \<rightharpoonup> int) \<Rightarrow> (gkey \<rightharpoonup> int) \<Rightarrow> crow list \<Rightarrow> conn
     \<Rightarrow> error \<times> conn + istate" where
  "item_stage L product_ids order_map df c = item_loop L product_ids order_map df (c, 0, 0)"

subsection \<open>Stage 7: order totals\<close>

text \<open>
  \<open>UPDATE orders o SET current_total = (SELECT COALESCE(SUM(line_total), 0) FROM
  order_items WHERE order_id = o.id) WHERE season_id = %s\<close>. \<open>SUM\<close> skips NULL and is
  NULL when nothing is left; NaN absorbs every sum.
\<close>

fun py_add :: "pyfloat \<Rightarrow> pyfloat \<Rightarrow> pyfloat" where
  "py_add (Fin a) (Fin b) = Fin (a + b)"
| "py_add x y = NaN"

definition sql_sum :: "pyfloat option list \<Rightarrow> pyfloat option" where
  "sql_sum vs =
     (let xs = concat (map (\<lambda>v. case v of None \<Rightarrow> [] | Some x \<Rightarrow> [x]) vs)
      in if xs = [] then None else Some (foldr py_add xs (Fin 0)))"

definition coalesce :: "'a option \<Rightarrow> 'a \<Rightarrow> 'a" where
  "coalesce v dflt = (case v of None \<Rightarrow> dflt | Some x \<Rightarrow> x)"

definition line_totals :: "db \<Rightarrow> int \<Rightarrow> pyfloat option list" where
  "line_totals d oid = map i_line_total (filter (\<lambda>i. i_order_id i = oid) (order_items d))"

definition update_totals :: "int \<Rightarrow> db \<Rightarrow> db" where
  "update_totals season_id d =
     d\<lparr>orders := map (\<lambda>x. if o_season_id x = Some season_id
                            then x\<lparr>o_current_total :=
                                    Some (coalesce (sql_sum (line_totals d (o_id x))) (Fin 0))\<rparr>
                            else x)
                     (orders d)\<rparr>"

subsection \<open>The run\<close>

record summary =
  sum_season_id :: int
  products_created :: nat
  orders_created :: nat
  items_added :: nat
  items_skipped :: nat

text \<open>The body of the \<open>try\<close> block, up to and including \<open>conn.commit()\<close>.\<close>

definition body :: "config \<Rightarrow> pylib \<Rightarrow> crow list \<Rightarrow> conn \<Rightarrow> error \<times> conn + conn \<times> summary" where
  "body cfg L df c =
     (case season_stage cfg (working c) of (d1, season_id) \<Rightarrow>
      let c1 = c\<lparr>working := d1\<rparr>;
          brand_ids = get_brand_ids cfg (working c1);
          location_ids = get_location_ids cfg (working c1)
      in
      case product_stage brand_ids season_id df c1 of (c2, product_ids, n_products) \<Rightarrow>
      case order_stage cfg season_id brand_ids location_ids df c2 of
        Inl x \<Rightarrow> Inl x
      | Inr (c3, order_map, n_orders) \<Rightarrow>
      case item_stage L product_ids order_map df c3 of
        Inl x \<Rightarrow> Inl x
      | Inr (c4, n_added, n_skipped) \<Rightarrow>
          Inr (commit (c4\<lparr>working := update_totals season_id (working c4)\<rparr>),
               \<lparr>sum_season_id = season_id, products_created = n_products,
                 orders_created = n_orders, items_added = n_added,
                 items_skipped = n_skipped\<rparr>))"

text \<open>
  \<open>main\<close>: the sheet is cleaned before the connection is opened; an exception in the
  \<open>try\<close> block rolls the connection back and is raised again. The result is the
  committed database with the error or the summary.
\<close>

definition main :: "config \<Rightarrow> pylib \<Rightarrow> row list \<Rightarrow> db \<Rightarrow> db \<times> (error + summary)" where
  "main cfg L sheet d =
     (case clean L sheet of
        Inl e \<Rightarrow> (d, Inl e)
      | Inr df \<Rightarrow>
          (case body cfg L df (connect d) of
             Inl (e, c) \<Rightarrow> (committed (rollback c), Inl e)
           | Inr (c, s) \<Rightarrow> (committed c, Inr s)))"

subsection \<open>The tables of the F25 import\<close>

definition f25_brand_map :: "(string \<times> string) list" where
  "f25_brand_map =
     [(''Prana'', ''Prana''), (''Free Fly'', ''Free Fly''),
      (''La Sportiva Footwear'', ''La Sportiva Footwear''),
      (''La Sportiva Apparel'', ''La Sportiva Apparel''),
      (''Petzl'', ''Petzl''), (''Montane'', ''Montane''), (''Ripton'', ''Ripton''),
      (''Metolius'', ''Metolius''), (''Scarpa'', ''Scarpa''), (''Sterling'', ''Sterling''),
      (''Duer'', ''Duer''), (''Patagonia'', ''Patagonia''), (''CAMP'', ''CAMP'')]"

definition f25_location_map :: "(string \<times> string) list" where
  "f25_location_map =
     [(''SLC'', ''SLC''), (''SLC '', ''SLC''), (''South Main'', ''SOMA''),
      (''Ogden'', ''OGD''), (''OGden'', ''OGD'')]"

definition f25_ship_month_map :: "(string \<times> string) list" where
  "f25_ship_month_map =
     [(''Jul'', ''2025-07-01''), (''Aug'', ''2025-08-01''), (''Sep'', ''2025-09-01''),
      (''Oct'', ''2025-10-01''), (''Nov'', ''2025-11-01''), (''Dec'', ''2025-12-01''),
      (''Jan'', ''2026-01-01''), (''ASAP '', ''2025-07-01'')]"

text \<open>
  \<open>ship_date = SHIP_MONTH_MAP.get(ship_month, '2025-08-01')\<close> and
  \<open>month_abbr = ship_month.strip()[:3].upper()\<close>; a label that is no text has no
  \<open>strip\<close> (AttributeError).
\<close>

fun f25_ship_period :: "cell \<Rightarrow> error + string \<times> string" where
  "f25_ship_period (Text s) =
     Inr (coalesce (dict_of f25_ship_month_map s) ''2025-08-01'', upper (take 3 (strip s)))"
| "f25_ship_period _ = Inl AttributeError"

definition f25 :: config where
  "f25 = \<lparr>brand_map = f25_brand_map, location_map = f25_location_map,
          season_name = ''Fall 2025'', season_by_upsert = True, ship_period = f25_ship_period,
          year_suffix = ''25''\<rparr>"

subsection \<open>The tables of the S26 import\<close>

definition s26_brand_map :: "(string \<times> string) list" where
  "s26_brand_map =
     [(''Prana'', ''Prana''), (''Free Fly'', ''Free Fly''),
      (''LaSportivaApparel'', ''La Sportiva Apparel''),
      (''LaSportivaEquipment'', ''La Sportiva Equipment''),
      (''LaSportiva'', ''La Sportiva''), (''ArcteryxFW'', ''ArcteryxFW''),
      (''Arcteryx'', ''Arcteryx''), (''Toad&Co'', ''Toad&Co''), (''TenTree'', ''TenTree''),
      (''DUER'', ''DUER''), (''Sterling'', ''Sterling''), (''Scarpa'', ''Scarpa''),
      (''Petzl'', ''Petzl''), (''DMM'', ''DMM''), (''Metolius'', ''Metolius'')]"

definition s26_location_map :: "(string \<times> string) list" where
  "s26_location_map = [(''SLC'', ''SLC''), (''SouthMain'', ''SOMA''), (''Ogden'', ''OGD'')]"

definition s26_ship_month_map :: "(rat \<times> string \<times> string) list" where
  "s26_ship_month_map =
     [(126, (''2026-01-01'', ''JAN'')), (226, (''2026-02-01'', ''FEB'')),
      (326, (''2026-03-01'', ''MAR'')), (426, (''2026-04-01'', ''APR'')),
      (526, (''2026-05-01'', ''MAY'')), (626, (''2026-06-01'', ''JUN''))]"

text \<open>
  \<open>ship_date, month_abbr = SHIP_MONTH_MAP.get(ship_month, ('2026-03-01', 'MAR'))\<close>; the
  keys of the table are numbers, so no text is among them.
\<close>

fun s26_ship_period :: "cell \<Rightarrow> error + string \<times> string" where
  "s26_ship_period (Num q) = Inr (coalesce (dict_of s26_ship_month_map q) (''2026-03-01'', ''MAR''))"
| "s26_ship_period _ = Inr (''2026-03-01'', ''MAR'')"

definition s26 :: config where
  "s26 = \<lparr>brand_map = s26_brand_map, location_map = s26_location_map,
          season_name = ''Spring 2026'', season_by_upsert = False,
          ship_period = s26_ship_period,
          year_suffix = ''26''\<rparr>"

section \<open>Notions used in the statements\<close>

text \<open>ASCII texts, and the labels that are ASCII when they are texts.\<close>

definition is_ascii :: "string \<Rightarrow> bool" where
  "is_ascii s = list_all (\<lambda>c. (of_char c :: nat) < 128) s"

fun ascii_label :: "cell \<Rightarrow> bool" where
  "ascii_label (Text t) = is_ascii t"
| "ascii_label _ = True"

text \<open>
  The order item the spec describes for a resolved row: its line total is the unit cost
  times the quantity. \<open>with_item\<close> is the connection after its insertion.
\<close>

definition item_of :: "int \<Rightarrow> int \<Rightarrow> int \<Rightarrow> pyfloat \<Rightarrow> order_item" where
  "item_of order_id product_id quantity unit_cost =
     \<lparr>i_order_id = order_id, i_product_id = product_id, i_quantity = quantity,
      i_unit_cost = unit_cost, i_line_total = Some (py_mul unit_cost quantity)\<rparr>"

definition with_item :: "conn \<Rightarrow> order_item \<Rightarrow> conn" where
  "with_item c it = c\<lparr>working := (working c)\<lparr>order_items := order_items (working c) @ [it]\<rparr>\<rparr>"

text \<open>
  The characters that \<open>LIKE\<close> does not take literally, and the patterns without them.
\<close>

definition is_wild :: "char \<Rightarrow> bool" where
  "is_wild c = (c = CHR ''%'' \<or> c = CHR ''_'' \<or> c = CHR 0x5C)"

definition wild_free :: "string \<Rightarrow> bool" where
  "wild_free p = list_all (\<lambda>c. \<not> is_wild c) p"

text \<open>\<open>starts_with p s\<close>: the text \<open>s\<close> begins with \<open>p\<close>.\<close>

definition starts_with :: "string \<Rightarrow> string \<Rightarrow> bool" where
  "starts_with p s = (take (length p) s = p)"

text \<open>
  The order the spec describes for a group: a preseason draft by creator 1 with no total
  yet. \<open>with_order\<close> is the connection after its insertion.
\<close>

definition order_of :: "int \<Rightarrow> string \<Rightarrow> int \<Rightarrow> int \<Rightarrow> int \<Rightarrow> string \<Rightarrow> order" where
  "order_of order_id order_number season_id brand_id location_id ship_date =
     \<lparr>o_id = order_id, o_order_number = order_number, o_season_id = Some season_id,
      o_brand_id = brand_id, o_location_id = location_id, o_ship_date = ship_date,
      o_order_type = ''preseason'', o_status = ''draft'', o_created_by = 1,
      o_current_total = None\<rparr>"

definition with_order :: "conn \<Rightarrow> order \<Rightarrow> conn" where
  "with_order c x = c\<lparr>working := (working c)\<lparr>orders := orders (working c) @ [x]\<rparr>\<rparr>"

text \<open>The UPCs of the products table, NULLs left out.\<close>

definition upcs :: "db \<Rightarrow> string list" where
  "upcs d = concat (map (\<lambda>p. case p_upc p of None \<Rightarrow> [] | Some u \<Rightarrow> [u]) (products d))"

section \<open>Concrete runs\<close>

text \<open>
  For the concrete runs, stand-ins for the built-ins on plain decimal literals, with an
  optional sign and blanks around them: an integer is read in decimal and a float is read
  from digits with at most one point. The other notations that Python reads (exponents,
  underscores, inf and nan) are not covered, and a number is printed by its integer part,
  as in a column of integers (a column of floats would show 12345.0); no concrete run
  reads such a text or prints a number. A numeric quantity beyond 64 bits wraps, as in an
  unsigned column.
\<close>

definition is_digit :: "char \<Rightarrow> bool" where
  "is_digit c = (48 \<le> (of_char c :: nat) \<and> (of_char c :: nat) \<le> 57)"

definition digits_value :: "string \<Rightarrow> nat" where
  "digits_value s = foldl (\<lambda>a c. 10 * a + (of_char c - 48)) 0 s"

definition plain_str :: "rat \<Rightarrow> string" where
  "plain_str q = (if q < 0 then ''-'' else []) @ str_nat (nat \<bar>trunc_int q\<bar>)"

text \<open>The sign of a literal, as a factor, and the literal without it.\<close>

definition split_sign :: "string \<Rightarrow> int \<times> string" where
  "split_sign s =
     (case s of
        [] \<Rightarrow> (1, [])
      | c # t \<Rightarrow> if c = CHR ''-'' then (- 1, t) else if c = CHR ''+'' then (1, t) else (1, s))"

definition plain_int :: "string \<Rightarrow> int option" where
  "plain_int s =
     (case split_sign (strip s) of
        (sign, t) \<Rightarrow>
          if t \<noteq> [] \<and> list_all is_digit t then Some (sign * int (digits_value t)) else None)"

definition plain_float :: "string \<Rightarrow> pyfloat option" where
  "plain_float s =
     (case split_sign (strip s) of
        (sign, t) \<Rightarrow>
          (let whole = takeWhile is_digit t; rest = dropWhile is_digit t
           in case rest of
                [] \<Rightarrow> if whole = [] then None
                      else Some (Fin (of_int sign * of_nat (digits_value whole)))
              | c # dec \<Rightarrow>
                  if c = CHR ''.'' \<and> list_all is_digit dec \<and> (whole \<noteq> [] \<or> dec \<noteq> [])
                  then Some (Fin (of_int sign * (of_nat (digits_value whole)
                                  + of_nat (digits_value dec) / 10 ^ length dec)))
                  else None))"

definition plain_overflow :: "cell \<Rightarrow> error + int" where
  "plain_overflow c =
     (case c of
        Num q \<Rightarrow> Inr ((trunc_int q + 2 ^ 63) mod 2 ^ 64 - 2 ^ 63)
      | _ \<Rightarrow> Inl OverflowError)"

definition plain_lib :: pylib where
  "plain_lib = \<lparr>str_num = plain_str, int_str = plain_int, float_str = plain_float,
                int_overflow = plain_overflow\<rparr>"

definition empty_db :: db where
  "empty_db = \<lparr>seasons = [], brands = [], locations = [], products = [], orders = [],
                order_items = []\<rparr>"

text \<open>A database that knows the brand Prana and the location SLC.\<close>

definition shop_db :: db where
  "shop_db = empty_db\<lparr>brands := [(7, ''Prana'')], locations := [(3, ''SLC'')]\<rparr>"

text \<open>The row of the spec's scenario: Prana, SLC, Aug, 5 pieces at 10.0, UPC 012345.\<close>

definition prana_row :: row where
  "prana_row = \<lparr>r_upc = Text ''012345'', r_brand = Text ''Prana'', r_gym = Text ''SLC'',
     r_quantity = Num 5, r_ship_month = Text ''Aug'', r_description = Text ''Pants'',
     r_product_number = Some (Text ''P1''), r_color = Some (Text ''Blue''),
     r_size = Some (Text ''M''), r_wholesale = Some (Num 10), r_retail = Some (Num 20)\<rparr>"

text \<open>The same row as the Loader leaves it.\<close>

definition prana_crow :: crow where
  "prana_crow = \<lparr>c_upc = ''012345'', c_brand = Text ''Prana'', c_gym = Text ''SLC'',
     c_quantity = 5, c_ship_month = Text ''Aug'', c_description = Text ''Pants'',
     c_product_number = Some (Text ''P1''), c_color = Some (Text ''Blue''),
     c_size = Some (Text ''M''), c_wholesale = Some (Num 10), c_retail = Some (Num 20)\<rparr>"

text \<open>A row whose UPC cell holds two blanks and whose quantity is -3.\<close>

definition blank_row :: row where
  "blank_row = prana_row\<lparr>r_upc := Text ''  '', r_quantity := Num (- 3)\<rparr>"

text \<open>The scenario's row with a wholesale cell that holds the text TBD.\<close>

definition tbd_row :: row where
  "tbd_row = prana_row\<lparr>r_wholesale := Some (Text ''TBD'')\<rparr>"

text \<open>The scenario's row for a gym that the location table does not know.\<close>

definition moab_row :: row where
  "moab_row = prana_row\<lparr>r_gym := Text ''Moab''\<rparr>"

text \<open>The database after the F25 import of the scenario's row into \<open>shop_db\<close>.\<close>

definition prana_result :: db where
  "prana_result =
     \<lparr>seasons = [\<lparr>s_id = 1, s_name = ''Fall 2025'', s_status = ''ordering''\<rparr>],
      brands = [(7, ''Prana'')], locations = [(3, ''SLC'')],
      products =
        [\<lparr>p_id = 1, p_upc = Some ''012345'', p_name = Text ''Pants'', p_sku = Text ''P1'',
          p_color = Text ''Blue'', p_size = Text ''M'', p_wholesale_cost = Num 10,
          p_msrp = Num 20, p_brand_id = Some 7, p_season_id = Some 1, p_active = True\<rparr>],
      orders =
        [\<lparr>o_id = 1, o_order_number = ''AUG25-PRA-SLC'', o_season_id = Some 1,
          o_brand_id = 7, o_location_id = 3, o_ship_date = ''2025-08-01'',
          o_order_type = ''preseason'', o_status = ''draft'', o_created_by = 1,
          o_current_total = Some (Fin 50)\<rparr>],
      order_items =
        [\<lparr>i_order_id = 1, i_product_id = 1, i_quantity = 5, i_unit_cost = Fin 10,
          i_line_total = Some (Fin 50)\<rparr>]\<rparr>"

text \<open>The connection at the moment the item loop raises on \<open>tbd_row\<close>, after the
  scenario's row has been imported in the same run: nothing is committed yet.\<close>

definition tbd_partial :: conn where
  "tbd_partial =
     \<lparr>committed = shop_db,
      working = prana_result\<lparr>orders :=
        [\<lparr>o_id = 1, o_order_number = ''AUG25-PRA-SLC'', o_season_id = Some 1,
          o_brand_id = 7, o_location_id = 3, o_ship_date = ''2025-08-01'',
          o_order_type = ''preseason'', o_status = ''draft'', o_created_by = 1,
          o_current_total = None\<rparr>]\<rparr>\<rparr>"

text \<open>A database in which the season Fall 2025 exists with one order that has no items.\<close>

definition july_order :: order where
  "july_order =
     \<lparr>o_id = 9, o_order_number = ''JUL25-PRA-SLC'', o_season_id = Some 4, o_brand_id = 7,
      o_location_id = 3, o_ship_date = ''2025-07-01'', o_order_type = ''preseason'',
      o_status = ''draft'', o_created_by = 1, o_current_total = None\<rparr>"

definition fall_db :: db where
  "fall_db = shop_db\<lparr>seasons := [\<lparr>s_id = 4, s_name = ''Fall 2025'', s_status = ''ordering''\<rparr>],
                      orders := [july_order]\<rparr>"

text \<open>The orders and items after the F25 import of the scenario's row into \<open>fall_db\<close>.\<close>

definition august_order :: order where
  "august_order =
     \<lparr>o_id = 10, o_order_number = ''AUG25-PRA-SLC'', o_season_id = Some 4, o_brand_id = 7,
      o_location_id = 3, o_ship_date = ''2025-08-01'', o_order_type = ''preseason'',
      o_status = ''draft'', o_created_by = 1, o_current_total = Some (Fin 50)\<rparr>"

definition fall_result :: db where
  "fall_result =
     fall_db\<lparr>products :=
        [\<lparr>p_id = 1, p_upc = Some ''012345'', p_name = Text ''Pants'', p_sku = Text ''P1'',
          p_color = Text ''Blue'', p_size = Text ''M'', p_wholesale_cost = Num 10,
          p_msrp = Num 20, p_brand_id = Some 7, p_season_id = Some 4, p_active = True\<rparr>],
      orders := [july_order\<lparr>o_current_total := Some (Fin 0)\<rparr>, august_order],
      order_items :=
        [\<lparr>i_order_id = 10, i_product_id = 1, i_quantity = 5, i_unit_cost = Fin 10,
          i_line_total = Some (Fin 50)\<rparr>]\<rparr>"

text \<open>The dicts of a run in which the scenario's product and order have the id 1.\<close>

definition one_product :: "string \<rightharpoonup> int" where
  "one_product = [''012345'' \<mapsto> 1]"

definition one_order :: "gkey \<rightharpoonup> int" where
  "one_order = [(Text ''Prana'', Text ''SLC'', Text ''Aug'') \<mapsto> 1]"

text \<open>
  A database whose only order of the scenario's brand, gym and month is a second one,
  numbered with the suffix 2: the first one is gone.
\<close>

definition clash_db :: db where
  "clash_db = shop_db\<lparr>seasons := [\<lparr>s_id = 4, s_name = ''Fall 2025'', s_status = ''ordering''\<rparr>],
      orders := [july_order\<lparr>o_order_number := ''AUG25-PRA-SLC-2'', o_ship_date := ''2025-08-01''\<rparr>]\<rparr>"

text \<open>A database in which the scenario's order number is already taken once.\<close>

definition aug_db :: db where
  "aug_db = shop_db\<lparr>seasons := [\<lparr>s_id = 4, s_name = ''Fall 2025'', s_status = ''ordering''\<rparr>],
      orders := [july_order\<lparr>o_order_number := ''AUG25-PRA-SLC'', o_ship_date := ''2025-08-01''\<rparr>]\<rparr>"

text \<open>The database after the F25 import of the scenario's row into \<open>aug_db\<close>.\<close>

definition aug_result :: db where
  "aug_result =
     fall_result\<lparr>orders :=
       [july_order\<lparr>o_order_number := ''AUG25-PRA-SLC'', o_ship_date := ''2025-08-01'',
                   o_current_total := Some (Fin 0)\<rparr>,
        august_order\<lparr>o_order_number := ''AUG25-PRA-SLC-2''\<rparr>]\<rparr>"

text \<open>
  A database that already holds a product with the scenario's UPC, under another name and
  at another price.
\<close>

definition old_pants :: product where
  "old_pants =
     \<lparr>p_id = 5, p_upc = Some ''012345'', p_name = Text ''Old pants'', p_sku = Text ''P0'',
      p_color = Text ''Grey'', p_size = Text ''L'', p_wholesale_cost = Num 8, p_msrp = Num 16,
      p_brand_id = Some 7, p_season_id = None, p_active = False\<rparr>"

definition stock_db :: db where
  "stock_db = shop_db\<lparr>products := [old_pants]\<rparr>"

text \<open>The scenario's row under a brand that the brand table does not know, with a UPC of
  its own.\<close>

definition acme_row :: row where
  "acme_row = prana_row\<lparr>r_upc := Text ''777'', r_brand := Text ''Acme''\<rparr>"

text \<open>The database after the F25 import of \<open>acme_row\<close> alone into \<open>shop_db\<close>: only
  the season is new.\<close>

definition acme_result :: db where
  "acme_result = shop_db\<lparr>seasons := [\<lparr>s_id = 1, s_name = ''Fall 2025'', s_status = ''ordering''\<rparr>]\<rparr>"

section \<open>Properties of the Loader\<close>

lemma strip_edges:
  "strip s = [] \<or> (\<not> is_space (hd (strip s)) \<and> \<not> is_space (last (strip s)))"
proof (cases "strip s = []")
  case True then show ?thesis by simp
next
  case False
  let ?a = "dropWhile is_space s"
  let ?b = "dropWhile is_space (rev ?a)"
  have b: "?b \<noteq> []" using False by (simp add: strip_def)
  have a: "?a \<noteq> []" using b by (cases "?a") auto
  have l: "last (strip s) = hd ?b" using b by (simp add: strip_def last_rev)
  have lb: "\<not> is_space (hd ?b)" using b by (rule hd_dropWhile)
  have "hd (strip s) = last ?b" using b by (simp add: strip_def hd_rev)
  also have "last ?b = last (rev ?a)"
    by (metis b append_is_Nil_conv last_appendR takeWhile_dropWhile_id)
  also have "\<dots> = hd ?a" using a by (simp add: last_rev)
  finally have h: "hd (strip s) = hd ?a" .
  have "\<not> is_space (hd ?a)" using a by (rule hd_dropWhile)
  then show ?thesis using l lb h by simp
qed

lemma clean_row_fields:
  assumes "clean_row L r = Inr c"
  shows "c_upc c = strip (astype_str L (r_upc r))"
    and "astype_int L (r_quantity r) = Inr (c_quantity c)"
    and "c_brand c = r_brand r" and "c_gym c = r_gym r"
    and "c_ship_month c = r_ship_month r" and "c_wholesale c = r_wholesale r"
  using assms by (auto simp: clean_row_def split: sum.splits)

lemma clean_row_quantity:
  assumes "clean_row L r = Inr c"
  shows "(\<forall>q. r_quantity r = Num q \<and> int64_ok (trunc_int q) \<longrightarrow> c_quantity c = trunc_int q)
       \<and> (\<forall>s n. r_quantity r = Text s \<and> int_str L s = Some n \<and> int64_ok n
              \<longrightarrow> c_quantity c = n)"
  using clean_row_fields(2) [OF assms] by auto

lemma convert_rows_all2:
  "convert_rows L rs = Inr cs \<Longrightarrow> list_all2 (\<lambda>r c. clean_row L r = Inr c) rs cs"
  by (induction rs arbitrary: cs) (auto split: sum.splits)

lemma list_all2_setD2:
  "list_all2 P xs ys \<Longrightarrow> y \<in> set ys \<Longrightarrow> \<exists>x\<in>set xs. P x y"
  by (induction rule: list_all2_induct) auto

text \<open>
  Claim C3, as the Loader has it: when cleaning returns, the cleaned rows are, in order,
  the rows of the sheet that have UPC, Brand, Gym and Quantity. The quantity of each is an
  integer of either sign: for a numeric cell whose truncation towards zero fits into 64
  bits it is that truncation, and for a text cell that \<open>int\<close> reads as a 64-bit
  integer it is that integer. The UPC of each is the stripped text of its cell, which is
  empty or has no whitespace at either end. Rows missing a required field are not among
  them.
\<close>

theorem loader_cleaned_rows:
  assumes "clean L sheet = Inr df"
  shows "list_all2 (\<lambda>r c. c_upc c = strip (astype_str L (r_upc r))
                        \<and> (\<forall>q. r_quantity r = Num q \<and> int64_ok (trunc_int q)
                               \<longrightarrow> c_quantity c = trunc_int q)
                        \<and> (\<forall>s n. r_quantity r = Text s \<and> int_str L s = Some n \<and> int64_ok n
                               \<longrightarrow> c_quantity c = n)
                        \<and> c_brand c = r_brand r \<and> c_gym c = r_gym r)
           (filter has_required sheet) df
         \<and> (\<forall>c\<in>set df. c_brand c \<noteq> Empty \<and> c_gym c \<noteq> Empty
               \<and> (c_upc c = [] \<or> (\<not> is_space (hd (c_upc c)) \<and> \<not> is_space (last (c_upc c)))))"
proof -
  let ?rs = "filter has_required sheet"
  have a2: "list_all2 (\<lambda>r c. clean_row L r = Inr c) ?rs df"
    using assms by (simp add: clean_def dropna_def convert_rows_all2)
  have one: "list_all2 (\<lambda>r c. c_upc c = strip (astype_str L (r_upc r))
                        \<and> (\<forall>q. r_quantity r = Num q \<and> int64_ok (trunc_int q)
                               \<longrightarrow> c_quantity c = trunc_int q)
                        \<and> (\<forall>s n. r_quantity r = Text s \<and> int_str L s = Some n \<and> int64_ok n
                               \<longrightarrow> c_quantity c = n)
                        \<and> c_brand c = r_brand r \<and> c_gym c = r_gym r) ?rs df"
  proof (rule list_all2_mono [OF a2])
    fix r c
    assume rc: "clean_row L r = Inr c"
    from clean_row_fields(1,3,4) [OF rc] clean_row_quantity [OF rc]
    show "c_upc c = strip (astype_str L (r_upc r))
          \<and> (\<forall>q. r_quantity r = Num q \<and> int64_ok (trunc_int q) \<longrightarrow> c_quantity c = trunc_int q)
          \<and> (\<forall>s n. r_quantity r = Text s \<and> int_str L s = Some n \<and> int64_ok n
                 \<longrightarrow> c_quantity c = n)
          \<and> c_brand c = r_brand r \<and> c_gym c = r_gym r"
      by (intro conjI) (erule conjunct1, erule conjunct2 | assumption)+
  qed
  have two: "c_brand c \<noteq> Empty \<and> c_gym c \<noteq> Empty
       \<and> (c_upc c = [] \<or> (\<not> is_space (hd (c_upc c)) \<and> \<not> is_space (last (c_upc c))))"
    if "c \<in> set df" for c
  proof -
    from a2 that obtain r where r: "r \<in> set ?rs" "clean_row L r = Inr c"
      by (auto dest: list_all2_setD2)
    then have "has_required r" by simp
    then show ?thesis
      using clean_row_fields [OF r(2)] strip_edges [of "astype_str L (r_upc r)"]
      by (simp add: has_required_def)
  qed
  from one show ?thesis
  proof (rule conjI)
    show "\<forall>c\<in>set df. c_brand c \<noteq> Empty \<and> c_gym c \<noteq> Empty
               \<and> (c_upc c = [] \<or> (\<not> is_space (hd (c_upc c)) \<and> \<not> is_space (last (c_upc c))))"
      using two by (rule ballI)
  qed
qed

text \<open>
  A sheet of two rows, the second without a gym: only the first is kept, with the
  quantity 5 of its cell.
\<close>

theorem loader_cleaned_rows_witness:
  "clean plain_lib [prana_row, prana_row\<lparr>r_gym := Empty\<rparr>] = Inr [prana_crow]
   \<and> filter has_required [prana_row, prana_row\<lparr>r_gym := Empty\<rparr>] = [prana_row]
   \<and> r_quantity prana_row = Num 5 \<and> int64_ok (trunc_int 5)
   \<and> c_quantity prana_crow = trunc_int 5
   \<and> c_upc prana_crow = strip (astype_str plain_lib (r_upc prana_row))
   \<and> c_brand prana_crow \<noteq> Empty \<and> c_gym prana_crow \<noteq> Empty
   \<and> (c_upc prana_crow = []
        \<or> (\<not> is_space (hd (c_upc prana_crow)) \<and> \<not> is_space (last (c_upc prana_crow))))"
proof -
  have h: "clean plain_lib [prana_row, prana_row\<lparr>r_gym := Empty\<rparr>] = Inr [prana_crow]"
    by code_simp
  have f: "filter has_required [prana_row, prana_row\<lparr>r_gym := Empty\<rparr>] = [prana_row]"
    by code_simp
  have q: "r_quantity prana_row = Num 5" by (simp add: prana_row_def)
  have k: "int64_ok (trunc_int 5)" by code_simp
  note t = loader_cleaned_rows [OF h]
  from t have "list_all2 (\<lambda>r c. c_upc c = strip (astype_str plain_lib (r_upc r))
                        \<and> (\<forall>q. r_quantity r = Num q \<and> int64_ok (trunc_int q)
                               \<longrightarrow> c_quantity c = trunc_int q)
                        \<and> (\<forall>s n. r_quantity r = Text s \<and> int_str plain_lib s = Some n
                                 \<and> int64_ok n \<longrightarrow> c_quantity c = n)
                        \<and> c_brand c = r_brand r \<and> c_gym c = r_gym r)
           (filter has_required [prana_row, prana_row\<lparr>r_gym := Empty\<rparr>]) [prana_crow]"
    by (rule conjunct1)
  then have a: "c_upc prana_crow = strip (astype_str plain_lib (r_upc prana_row))
      \<and> (\<forall>q. r_quantity prana_row = Num q \<and> int64_ok (trunc_int q)
             \<longrightarrow> c_quantity prana_crow = trunc_int q)"
    unfolding f by simp
  then have u: "c_upc prana_crow = strip (astype_str plain_lib (r_upc prana_row))"
    by (rule conjunct1)
  from a q k have n: "c_quantity prana_crow = trunc_int 5" by blast
  from t have b: "\<forall>c\<in>set [prana_crow]. c_brand c \<noteq> Empty \<and> c_gym c \<noteq> Empty
               \<and> (c_upc c = [] \<or> (\<not> is_space (hd (c_upc c)) \<and> \<not> is_space (last (c_upc c))))"
    by (rule conjunct2)
  have m: "prana_crow \<in> set [prana_crow]" by simp
  show ?thesis
    by (rule conjI [OF h conjI [OF f conjI [OF q conjI [OF k conjI [OF n conjI [OF u
          bspec [OF b m]]]]]]])
qed

text \<open>
  Claim C3 as stated fails: a row with a blank UPC and the quantity -3 survives the
  cleaning with an empty UPC and a negative quantity.
\<close>

theorem loader_keeps_blank_upc_and_negative_quantity:
  "clean plain_lib [blank_row] =
     Inr [\<lparr>c_upc = [], c_brand = Text ''Prana'', c_gym = Text ''SLC'',
           c_quantity = - 3, c_ship_month = Text ''Aug'', c_description = Text ''Pants'',
           c_product_number = Some (Text ''P1''), c_color = Some (Text ''Blue''),
           c_size = Some (Text ''M''), c_wholesale = Some (Num 10),
           c_retail = Some (Num 20)\<rparr>]"
  by code_simp

section \<open>What each stage leaves alone\<close>

lemma season_stage_frame:
  assumes "season_stage cfg d = (d', i)"
  shows "brands d' = brands d" and "locations d' = locations d"
    and "products d' = products d" and "orders d' = orders d"
    and "order_items d' = order_items d"
  using assms
  by (auto simp: season_stage_def upsert_season_def get_or_insert_season_def
      insert_season_def Let_def split: if_splits option.splits)

lemma reset_upc_id:
  "map (\<lambda>p. if p_upc p = Some u then p\<lparr>p_upc := Some u\<rparr> else p) ps = ps"
  by (induction ps) auto

lemma insert_product_frame:
  assumes "insert_product u r b s d = (d', i)"
  shows "seasons d' = seasons d" and "brands d' = brands d"
    and "locations d' = locations d" and "orders d' = orders d"
    and "order_items d' = order_items d"
    and "\<exists>new. products d' = products d @ new"
  using assms
  by (auto simp: insert_product_def Let_def reset_upc_id split: option.splits)

lemma product_step_frame:
  assumes "product_step ex bids sid r (c, pids, n) = (c', pids', n')"
  shows "committed c' = committed c"
    and "seasons (working c') = seasons (working c)"
    and "brands (working c') = brands (working c)"
    and "locations (working c') = locations (working c)"
    and "orders (working c') = orders (working c)"
    and "order_items (working c') = order_items (working c)"
    and "\<exists>new. products (working c') = products (working c) @ new"
  using assms
  by (auto simp: product_step_def Let_def split: option.splits prod.splits
      dest: insert_product_frame)

lemma product_loop_frame:
  "product_loop ex bids sid rs (c, pids, n) = (c', pids', n') \<Longrightarrow>
     committed c' = committed c
     \<and> seasons (working c') = seasons (working c)
     \<and> brands (working c') = brands (working c)
     \<and> locations (working c') = locations (working c)
     \<and> orders (working c') = orders (working c)
     \<and> order_items (working c') = order_items (working c)
     \<and> (\<exists>new. products (working c') = products (working c) @ new)"
proof (induction rs arbitrary: c pids n)
  case Nil
  then show ?case by simp
next
  case (Cons r rs)
  obtain c1 p1 n1 where s: "product_step ex bids sid r (c, pids, n) = (c1, p1, n1)"
    by (cases "product_step ex bids sid r (c, pids, n)") auto
  from Cons.prems s have "product_loop ex bids sid rs (c1, p1, n1) = (c', pids', n')"
    by simp
  from Cons.IH [OF this] product_step_frame [OF s] show ?case by auto
qed

lemma insert_order_frame:
  assumes "insert_order num sid b l dt d = (d', i)"
  shows "seasons d' = seasons d" and "brands d' = brands d"
    and "locations d' = locations d" and "products d' = products d"
    and "order_items d' = order_items d"
    and "\<exists>x. orders d' = orders d @ [x] \<and> o_order_number x = num \<and> o_id x = i
             \<and> o_season_id x = Some sid \<and> o_ship_date x = dt"
  using assms by (auto simp: insert_order_def Let_def)

lemma order_step_raises:
  "order_step cfg sid bids lids k (c, om, n) = Inl (e, c') \<Longrightarrow> c' = c"
  by (auto simp: order_step_def Let_def split: option.splits sum.splits prod.splits)

lemma order_step_frame:
  assumes "order_step cfg sid bids lids k (c, om, n) = Inr (c', om', n')"
  shows "committed c' = committed c
     \<and> seasons (working c') = seasons (working c)
     \<and> brands (working c') = brands (working c)
     \<and> locations (working c') = locations (working c)
     \<and> products (working c') = products (working c)
     \<and> order_items (working c') = order_items (working c)
     \<and> (\<exists>new. orders (working c') = orders (working c) @ new \<and> n' = n + length new)"
  using assms
  by (auto simp: order_step_def Let_def split: option.splits sum.splits prod.splits
      dest: insert_order_frame)

lemma order_loop_raises:
  "order_loop cfg sid bids lids ks (c, om, n) = Inl (e, c') \<Longrightarrow> committed c' = committed c"
proof (induction ks arbitrary: c om n)
  case Nil
  then show ?case by simp
next
  case (Cons k ks)
  show ?case
  proof (cases "order_step cfg sid bids lids k (c, om, n)")
    case (Inl x)
    with Cons.prems have "x = (e, c')" by simp
    with Inl show ?thesis by (auto dest: order_step_raises)
  next
    case (Inr st)
    obtain c1 om1 n1 where st: "st = (c1, om1, n1)" by (cases st) auto
    from Cons.prems Inr st have "order_loop cfg sid bids lids ks (c1, om1, n1) = Inl (e, c')"
      by simp
    from Cons.IH [OF this] order_step_frame [OF Inr [unfolded st]] show ?thesis by simp
  qed
qed

lemma order_loop_frame:
  "order_loop cfg sid bids lids ks (c, om, n) = Inr (c', om', n') \<Longrightarrow>
     committed c' = committed c
     \<and> seasons (working c') = seasons (working c)
     \<and> brands (working c') = brands (working c)
     \<and> locations (working c') = locations (working c)
     \<and> products (working c') = products (working c)
     \<and> order_items (working c') = order_items (working c)
     \<and> (\<exists>new. orders (working c') = orders (working c) @ new \<and> n' = n + length new)"
proof (induction ks arbitrary: c om n)
  case Nil
  then show ?case by simp
next
  case (Cons k ks)
  from Cons.prems obtain c1 om1 n1
    where s: "order_step cfg sid bids lids k (c, om, n) = Inr (c1, om1, n1)"
      and l: "order_loop cfg sid bids lids ks (c1, om1, n1) = Inr (c', om', n')"
    by (auto split: sum.splits)
  from Cons.IH [OF l] order_step_frame [OF s] show ?case by auto
qed

lemma item_step_raises:
  "item_step L pids om r (c, a, s) = Inl (e, c') \<Longrightarrow> c' = c"
  by (auto simp: item_step_def Let_def split: option.splits sum.splits)

lemma item_step_frame:
  assumes "item_step L pids om r (c, a, s) = Inr (c', a', s')"
  shows "committed c' = committed c
     \<and> seasons (working c') = seasons (working c)
     \<and> brands (working c') = brands (working c)
     \<and> locations (working c') = locations (working c)
     \<and> products (working c') = products (working c)
     \<and> orders (working c') = orders (working c)
     \<and> (\<exists>new. order_items (working c') = order_items (working c) @ new
               \<and> a' = a + length new \<and> a' + s' = a + s + 1)"
  using assms
  by (auto simp: item_step_def insert_item_def Let_def split: option.splits sum.splits)

lemma item_loop_raises:
  "item_loop L pids om rs (c, a, s) = Inl (e, c') \<Longrightarrow> committed c' = committed c"
proof (induction rs arbitrary: c a s)
  case Nil
  then show ?case by simp
next
  case (Cons r rs)
  show ?case
  proof (cases "item_step L pids om r (c, a, s)")
    case (Inl x)
    with Cons.prems have "x = (e, c')" by simp
    with Inl show ?thesis by (auto dest: item_step_raises)
  next
    case (Inr st)
    obtain c1 a1 s1 where st: "st = (c1, a1, s1)" by (cases st) auto
    from Cons.prems Inr st have "item_loop L pids om rs (c1, a1, s1) = Inl (e, c')"
      by simp
    from Cons.IH [OF this] item_step_frame [OF Inr [unfolded st]] show ?thesis by simp
  qed
qed

lemma item_loop_frame:
  "item_loop L pids om rs (c, a, s) = Inr (c', a', s') \<Longrightarrow>
     committed c' = committed c
     \<and> seasons (working c') = seasons (working c)
     \<and> brands (working c') = brands (working c)
     \<and> locations (working c') = locations (working c)
     \<and> products (working c') = products (working c)
     \<and> orders (working c') = orders (working c)
     \<and> (\<exists>new. order_items (working c') = order_items (working c) @ new
               \<and> a' = a + length new \<and> a' + s' = a + s + length rs)"
proof (induction rs arbitrary: c a s)
  case Nil
  then show ?case by simp
next
  case (Cons r rs)
  from Cons.prems obtain c1 a1 s1
    where s: "item_step L pids om r (c, a, s) = Inr (c1, a1, s1)"
      and l: "item_loop L pids om rs (c1, a1, s1) = Inr (c', a', s')"
    by (auto split: sum.splits)
  from Cons.IH [OF l] item_step_frame [OF s] show ?case by auto
qed

lemma product_stage_frame:
  assumes "product_stage bids sid df c = (c', pids, n)"
  shows "committed c' = committed c
     \<and> seasons (working c') = seasons (working c)
     \<and> brands (working c') = brands (working c)
     \<and> locations (working c') = locations (working c)
     \<and> orders (working c') = orders (working c)
     \<and> order_items (working c') = order_items (working c)
     \<and> (\<exists>new. products (working c') = products (working c) @ new)"
  using assms unfolding product_stage_def by (rule product_loop_frame)

text \<open>The stages of a run that reaches the commit, one after the other.\<close>

lemma body_stages:
  assumes "body cfg L df c = Inr (c', s)"
  obtains d1 c2 pids c3 om c4 where
    "season_stage cfg (working c) = (d1, sum_season_id s)"
    "product_stage (get_brand_ids cfg d1) (sum_season_id s) df (c\<lparr>working := d1\<rparr>)
       = (c2, pids, products_created s)"
    "order_stage cfg (sum_season_id s) (get_brand_ids cfg d1) (get_location_ids cfg d1) df c2
       = Inr (c3, om, orders_created s)"
    "item_stage L pids om df c3 = Inr (c4, items_added s, items_skipped s)"
    "c' = commit (c4\<lparr>working := update_totals (sum_season_id s) (working c4)\<rparr>)"
  using assms
  by (auto simp: body_def Let_def split: prod.splits sum.splits)

lemma body_raises:
  assumes "body cfg L df c = Inl (e, c')"
  shows "committed c' = committed c"
proof -
  obtain d1 sid where s1: "season_stage cfg (working c) = (d1, sid)"
    by (cases "season_stage cfg (working c)") auto
  let ?c1 = "c\<lparr>working := d1\<rparr>"
  let ?b = "get_brand_ids cfg d1" and ?l = "get_location_ids cfg d1"
  obtain c2 pids n where s2: "product_stage ?b sid df ?c1 = (c2, pids, n)"
    by (cases "product_stage ?b sid df ?c1") auto
  from product_stage_frame [OF s2] have c2: "committed c2 = committed c" by simp
  show ?thesis
  proof (cases "order_stage cfg sid ?b ?l df c2")
    case (Inl x)
    with assms s1 s2 have "x = (e, c')" by (simp add: body_def Let_def)
    with Inl c2 show ?thesis
      by (auto simp: order_stage_def dest: order_loop_raises)
  next
    case (Inr st)
    obtain c3 om k where st: "st = (c3, om, k)" by (cases st) auto
    from Inr st have c3: "committed c3 = committed c2"
      by (auto simp: order_stage_def dest: order_loop_frame)
    show ?thesis
    proof (cases "item_stage L pids om df c3")
      case (Inl x)
      with assms s1 s2 Inr st have "x = (e, c')" by (simp add: body_def Let_def)
      with Inl c2 c3 show ?thesis
        by (auto simp: item_stage_def dest: item_loop_raises)
    next
      case (Inr st')
      with assms s1 s2 \<open>order_stage cfg sid ?b ?l df c2 = Inr st\<close> st show ?thesis
        by (auto simp: body_def Let_def split: prod.splits)
    qed
  qed
qed

section \<open>Rollback and the counters of a run\<close>

lemma main_completed:
  assumes "main cfg L sheet d = (d', Inr s)"
  obtains df c' where "clean L sheet = Inr df" "body cfg L df (connect d) = Inr (c', s)"
    "d' = committed c'"
  using assms by (auto simp: main_def split: sum.splits prod.splits)

text \<open>
  Claim C2: when the body of the \<open>try\<close> block raises, whatever it had written, the
  rollback leaves the connection as it was opened, the committed database is the one the
  run started from, and the run ends with the error.
\<close>

theorem exception_rolls_back:
  assumes "clean L sheet = Inr df" and "body cfg L df (connect d) = Inl (e, c')"
  shows "main cfg L sheet d = (d, Inl e) \<and> rollback c' = connect d"
proof -
  from body_raises [OF assms(2)] have "committed c' = d" by (simp add: connect_def)
  then show ?thesis using assms by (simp add: main_def rollback_def connect_def)
qed

text \<open>A run of two rows that raises on the second, after the first was written.\<close>

theorem exception_rolls_back_witness:
  "clean plain_lib [prana_row, tbd_row] = Inr [prana_crow, prana_crow\<lparr>c_wholesale := Some (Text ''TBD'')\<rparr>]
   \<and> body f25 plain_lib [prana_crow, prana_crow\<lparr>c_wholesale := Some (Text ''TBD'')\<rparr>]
        (connect shop_db) = Inl (ValueError, tbd_partial)
   \<and> main f25 plain_lib [prana_row, tbd_row] shop_db = (shop_db, Inl ValueError)
   \<and> rollback tbd_partial = connect shop_db"
proof -
  have h1: "clean plain_lib [prana_row, tbd_row]
              = Inr [prana_crow, prana_crow\<lparr>c_wholesale := Some (Text ''TBD'')\<rparr>]"
    by code_simp
  have h2: "body f25 plain_lib [prana_crow, prana_crow\<lparr>c_wholesale := Some (Text ''TBD'')\<rparr>]
              (connect shop_db) = Inl (ValueError, tbd_partial)"
    by code_simp
  show ?thesis by (rule conjI [OF h1 conjI [OF h2 exception_rolls_back [OF h1 h2]]])
qed

text \<open>
  Claim C9: in a run that completes, every cleaned row is counted once, as added or as
  skipped, and the order items grow by exactly the rows counted as added.
\<close>

theorem every_row_added_or_skipped:
  assumes "clean L sheet = Inr df" and "main cfg L sheet d = (d', Inr s)"
  shows "items_added s + items_skipped s = length df
         \<and> length (order_items d') = length (order_items d) + items_added s"
proof -
  from assms obtain c' where b: "body cfg L df (connect d) = Inr (c', s)"
    and d': "d' = committed c'"
    by (auto elim!: main_completed)
  from b obtain d1 c2 pids c3 om c4 where
    s1: "season_stage cfg (working (connect d)) = (d1, sum_season_id s)" and
    s2: "product_stage (get_brand_ids cfg d1) (sum_season_id s) df ((connect d)\<lparr>working := d1\<rparr>)
       = (c2, pids, products_created s)" and
    s3: "order_stage cfg (sum_season_id s) (get_brand_ids cfg d1) (get_location_ids cfg d1) df c2
       = Inr (c3, om, orders_created s)" and
    s4: "item_stage L pids om df c3 = Inr (c4, items_added s, items_skipped s)" and
    c': "c' = commit (c4\<lparr>working := update_totals (sum_season_id s) (working c4)\<rparr>)"
    by (rule body_stages)
  have i1: "order_items d1 = order_items d"
    using season_stage_frame(5) [OF s1] by (simp add: connect_def)
  have i2: "order_items (working c2) = order_items d1"
    using product_stage_frame [OF s2] by simp
  have i3: "order_items (working c3) = order_items (working c2)"
    using s3 by (auto simp: order_stage_def dest: order_loop_frame)
  from s4 obtain new where
    i4: "order_items (working c4) = order_items (working c3) @ new"
    and n: "items_added s = length new"
    and t: "items_added s + items_skipped s = length df"
    by (auto simp: item_stage_def dest!: item_loop_frame)
  have "order_items d' = order_items (working c4)"
    by (simp add: d' c' commit_def update_totals_def)
  with i1 i2 i3 i4 n t show ?thesis by simp
qed

text \<open>Two rows of one product; the gym of the second is unknown, so it is skipped.\<close>

theorem every_row_added_or_skipped_witness:
  "clean plain_lib [prana_row, moab_row] = Inr [prana_crow, prana_crow\<lparr>c_gym := Text ''Moab''\<rparr>]
   \<and> main f25 plain_lib [prana_row, moab_row] shop_db
       = (prana_result, Inr \<lparr>sum_season_id = 1, products_created = 1, orders_created = 1,
                              items_added = 1, items_skipped = 1\<rparr>)
   \<and> (1::nat) + 1 = length [prana_crow, prana_crow\<lparr>c_gym := Text ''Moab''\<rparr>]
   \<and> length (order_items prana_result) = length (order_items shop_db) + 1"
proof -
  have h1: "clean plain_lib [prana_row, moab_row]
              = Inr [prana_crow, prana_crow\<lparr>c_gym := Text ''Moab''\<rparr>]"
    by code_simp
  have h2: "main f25 plain_lib [prana_row, moab_row] shop_db
       = (prana_result, Inr \<lparr>sum_season_id = 1, products_created = 1, orders_created = 1,
                              items_added = 1, items_skipped = 1\<rparr>)"
    by code_simp
  from every_row_added_or_skipped [OF h1 h2]
  have "(1::nat) + 1 = length [prana_crow, prana_crow\<lparr>c_gym := Text ''Moab''\<rparr>]
   \<and> length (order_items prana_result) = length (order_items shop_db) + 1"
    by simp
  with h1 h2 show ?thesis by (intro conjI) simp_all
qed

section \<open>The Aggregator\<close>

lemma foldr_py_add_fin: "foldr py_add (map Fin qs) (Fin 0) = Fin (sum_list qs)"
  by (induction qs) auto

lemma sql_sum_fin:
  "sql_sum (map (\<lambda>q. Some (Fin q)) qs) = (if qs = [] then None else Some (Fin (sum_list qs)))"
proof -
  have "concat (map (\<lambda>v. case v of None \<Rightarrow> [] | Some x \<Rightarrow> [x]) (map (\<lambda>q. Some (Fin q)) qs))
          = map Fin qs"
    by (induction qs) auto
  then show ?thesis by (simp add: sql_sum_def foldr_py_add_fin)
qed

lemma update_totals_order:
  assumes "x \<in> set (orders (update_totals sid w))" and "o_season_id x = Some sid"
  shows "o_current_total x
           = Some (coalesce (sql_sum (line_totals (update_totals sid w) (o_id x))) (Fin 0))"
proof -
  have lt: "line_totals (update_totals sid w) = line_totals w"
    by (simp add: line_totals_def update_totals_def fun_eq_iff)
  from assms(1) obtain y where y: "y \<in> set (orders w)"
    and x: "x = (if o_season_id y = Some sid
                 then y\<lparr>o_current_total := Some (coalesce (sql_sum (line_totals w (o_id y))) (Fin 0))\<rparr>
                 else y)"
    by (auto simp: update_totals_def)
  show ?thesis
  proof (cases "o_season_id y = Some sid")
    case True
    with x show ?thesis by (simp add: lt)
  next
    case False
    with x assms(2) show ?thesis by simp
  qed
qed

text \<open>
  Claim C1: after a run that completes, every order of the run's season carries as its
  total the \<open>COALESCE(SUM(line_total), 0)\<close> over its order items in the committed
  database: 0 when it has no items, and the arithmetic sum when all its line totals are
  numbers.
\<close>

theorem totals_match_line_totals:
  assumes "main cfg L sheet d = (d', Inr s)"
    and "x \<in> set (orders d')" and "o_season_id x = Some (sum_season_id s)"
  shows "o_current_total x = Some (coalesce (sql_sum (line_totals d' (o_id x))) (Fin 0))
       \<and> (line_totals d' (o_id x) = [] \<longrightarrow> o_current_total x = Some (Fin 0))
       \<and> (\<forall>qs. line_totals d' (o_id x) = map (\<lambda>q. Some (Fin q)) qs
               \<longrightarrow> o_current_total x = Some (Fin (sum_list qs)))"
proof -
  from assms(1) obtain df c' where b: "body cfg L df (connect d) = Inr (c', s)"
    and d': "d' = committed c'"
    by (rule main_completed)
  from b obtain c4 where
    "c' = commit (c4\<lparr>working := update_totals (sum_season_id s) (working c4)\<rparr>)"
    by (rule body_stages)
  with d' have "d' = update_totals (sum_season_id s) (working c4)"
    by (simp add: commit_def)
  with assms(2,3)
  have t: "o_current_total x = Some (coalesce (sql_sum (line_totals d' (o_id x))) (Fin 0))"
    by (simp add: update_totals_order)
  have z: "o_current_total x = Some (Fin 0)" if "line_totals d' (o_id x) = []"
    using t that by (simp add: sql_sum_def coalesce_def)
  have f: "o_current_total x = Some (Fin (sum_list qs))"
    if "line_totals d' (o_id x) = map (\<lambda>q. Some (Fin q)) qs" for qs
    using t that by (simp add: sql_sum_fin coalesce_def)
  from t z f show ?thesis by blast
qed

text \<open>
  The scenario's row imported into a database whose season already has an order without
  items: that order's total becomes 0, the new order's total is its one line total.
\<close>

theorem totals_match_line_totals_witness:
  "main f25 plain_lib [prana_row] fall_db
     = (fall_result, Inr \<lparr>sum_season_id = 4, products_created = 1, orders_created = 1,
                           items_added = 1, items_skipped = 0\<rparr>)
   \<and> line_totals fall_result 9 = []
   \<and> o_current_total (july_order\<lparr>o_current_total := Some (Fin 0)\<rparr>) = Some (Fin 0)
   \<and> line_totals fall_result 10 = [Some (Fin 50)]
   \<and> o_current_total august_order = Some (Fin (sum_list [50]))"
proof -
  let ?s = "\<lparr>sum_season_id = 4, products_created = 1, orders_created = 1,
             items_added = 1, items_skipped = 0\<rparr>"
  have h: "main f25 plain_lib [prana_row] fall_db = (fall_result, Inr ?s)"
    by code_simp
  have m1: "july_order\<lparr>o_current_total := Some (Fin 0)\<rparr> \<in> set (orders fall_result)"
    by (simp add: fall_result_def)
  have m2: "august_order \<in> set (orders fall_result)"
    by (simp add: fall_result_def)
  have s1: "o_season_id (july_order\<lparr>o_current_total := Some (Fin 0)\<rparr>) = Some (sum_season_id ?s)"
    by (simp add: july_order_def)
  have s2: "o_season_id august_order = Some (sum_season_id ?s)"
    by (simp add: august_order_def)
  have l1: "line_totals fall_result 9 = []"
    by (simp add: line_totals_def fall_result_def)
  have l2: "line_totals fall_result 10 = [Some (Fin 50)]"
    by (simp add: line_totals_def fall_result_def)
  have i1: "o_id (july_order\<lparr>o_current_total := Some (Fin 0)\<rparr>) = 9"
    by (simp add: july_order_def)
  have i2: "o_id august_order = 10"
    by (simp add: august_order_def)
  from totals_match_line_totals [OF h m1 s1] l1 i1
  have r1: "o_current_total (july_order\<lparr>o_current_total := Some (Fin 0)\<rparr>) = Some (Fin 0)"
    by simp
  from totals_match_line_totals [OF h m2 s2] l2 i2
  have r2: "o_current_total august_order = Some (Fin (sum_list [50]))"
    by (simp add: sql_sum_def coalesce_def)
  show ?thesis by (rule conjI [OF h conjI [OF l1 conjI [OF r1 conjI [OF l2 r2]]]])
qed

section \<open>Order items\<close>

text \<open>
  Claim C4, as the item loop has it: for a row whose product and order resolved, one item
  is inserted whose line total is the unit cost times the quantity. The unit cost is 0
  when the Wholesale column is missing or the cell holds the empty text, the cell's number
  when it holds one, and what \<open>float\<close> reads when it holds a numeric text; on a text
  that \<open>float\<close> rejects the step raises ValueError and inserts nothing.
\<close>

theorem item_line_total:
  assumes "truthy_id (pids (strip (c_upc r))) = Some pid"
    and "truthy_id (om (row_key r)) = Some oid"
  shows "(c_wholesale r = None \<or> c_wholesale r = Some (Text []) \<longrightarrow>
            item_step L pids om r (c, a, s)
              = Inr (with_item c (item_of oid pid (c_quantity r) (Fin 0)), a + 1, s))
       \<and> (\<forall>q. c_wholesale r = Some (Num q) \<longrightarrow>
            item_step L pids om r (c, a, s)
              = Inr (with_item c (item_of oid pid (c_quantity r) (Fin q)), a + 1, s))
       \<and> (\<forall>t u. t \<noteq> [] \<and> c_wholesale r = Some (Text t) \<and> float_str L t = Some u \<longrightarrow>
            item_step L pids om r (c, a, s)
              = Inr (with_item c (item_of oid pid (c_quantity r) u), a + 1, s))
       \<and> (\<forall>t. t \<noteq> [] \<and> c_wholesale r = Some (Text t) \<and> float_str L t = None \<longrightarrow>
            item_step L pids om r (c, a, s) = Inl (ValueError, c))"
  using assms
  by (auto simp: item_step_def with_item_def item_of_def insert_item_def row_get_def Let_def)

text \<open>
  The scenario's row (10.0 a piece, 5 pieces), the same row without a Wholesale column,
  with the text 12.5 and with the text TBD.
\<close>

theorem item_line_total_witness:
  "truthy_id (one_product (strip (c_upc prana_crow))) = Some 1
   \<and> truthy_id (one_order (row_key prana_crow)) = Some 1
   \<and> item_step plain_lib one_product one_order prana_crow (connect shop_db, 0, 0)
       = Inr (with_item (connect shop_db) (item_of 1 1 5 (Fin 10)), 1, 0)
   \<and> i_line_total (item_of 1 1 5 (Fin 10)) = Some (Fin 50)
   \<and> item_step plain_lib one_product one_order (prana_crow\<lparr>c_wholesale := None\<rparr>)
         (connect shop_db, 0, 0)
       = Inr (with_item (connect shop_db) (item_of 1 1 5 (Fin 0)), 1, 0)
   \<and> item_step plain_lib one_product one_order (prana_crow\<lparr>c_wholesale := Some (Text ''12.5'')\<rparr>)
         (connect shop_db, 0, 0)
       = Inr (with_item (connect shop_db) (item_of 1 1 5 (Fin (25 / 2))), 1, 0)
   \<and> item_step plain_lib one_product one_order (prana_crow\<lparr>c_wholesale := Some (Text ''TBD'')\<rparr>)
         (connect shop_db, 0, 0)
       = Inl (ValueError, connect shop_db)"
proof -
  let ?c = "connect shop_db"
  have p: "truthy_id (one_product (strip (c_upc prana_crow))) = Some 1"
    by code_simp
  have k: "truthy_id (one_order (row_key prana_crow)) = Some 1"
    by code_simp
  have p': "truthy_id (one_product (strip (c_upc (prana_crow\<lparr>c_wholesale := w\<rparr>)))) = Some 1" for w
    using p by simp
  have k': "truthy_id (one_order (row_key (prana_crow\<lparr>c_wholesale := w\<rparr>))) = Some 1" for w
    using k by (simp add: row_key_def)
  have q: "c_quantity prana_crow = 5" "c_wholesale prana_crow = Some (Num 10)"
    by (simp_all add: prana_crow_def)
  from item_line_total [where pids = one_product and om = one_order and r = "prana_crow"
      and pid = 1 and oid = 1 and L = plain_lib and c = "connect shop_db" and a = 0 and s = 0,
      OF p k] q
  have a: "item_step plain_lib one_product one_order prana_crow (?c, 0, 0)
       = Inr (with_item ?c (item_of 1 1 5 (Fin 10)), 1, 0)"
    by simp
  have b: "i_line_total (item_of 1 1 5 (Fin 10)) = Some (Fin 50)"
    by (simp add: item_of_def)
  from item_line_total [where pids = one_product and om = one_order and r = "prana_crow\<lparr>c_wholesale := None\<rparr>"
      and pid = 1 and oid = 1 and L = plain_lib and c = "connect shop_db" and a = 0 and s = 0,
      OF p' k'] q
  have c: "item_step plain_lib one_product one_order (prana_crow\<lparr>c_wholesale := None\<rparr>) (?c, 0, 0)
       = Inr (with_item ?c (item_of 1 1 5 (Fin 0)), 1, 0)"
    by simp
  have f1: "float_str plain_lib ''12.5'' = Some (Fin (25 / 2))" by code_simp
  have f2: "float_str plain_lib ''TBD'' = None" by code_simp
  from item_line_total [where pids = one_product and om = one_order and r = "prana_crow\<lparr>c_wholesale := Some (Text ''12.5'')\<rparr>"
      and pid = 1 and oid = 1 and L = plain_lib and c = "connect shop_db" and a = 0 and s = 0,
      OF p' k'] q f1
  have d: "item_step plain_lib one_product one_order
             (prana_crow\<lparr>c_wholesale := Some (Text ''12.5'')\<rparr>) (?c, 0, 0)
       = Inr (with_item ?c (item_of 1 1 5 (Fin (25 / 2))), 1, 0)"
    by simp
  from item_line_total [where pids = one_product and om = one_order and r = "prana_crow\<lparr>c_wholesale := Some (Text ''TBD'')\<rparr>"
      and pid = 1 and oid = 1 and L = plain_lib and c = "connect shop_db" and a = 0 and s = 0,
      OF p' k'] q f2
  have e: "item_step plain_lib one_product one_order
             (prana_crow\<lparr>c_wholesale := Some (Text ''TBD'')\<rparr>) (?c, 0, 0)
       = Inl (ValueError, ?c)"
    by simp
  show ?thesis
    by (rule conjI [OF p conjI [OF k conjI [OF a conjI [OF b conjI [OF c conjI [OF d e]]]]]])
qed

text \<open>
  Claim C4 as stated fails: the scenario's row with the text TBD as its wholesale value
  resolves its product and its order, and then the whole import ends with ValueError and
  an unchanged database instead of an item with the unit cost 0.
\<close>

theorem non_numeric_wholesale_aborts_the_import:
  "main f25 plain_lib [tbd_row] shop_db = (shop_db, Inl ValueError)"
  by code_simp

section \<open>Ship periods\<close>

text \<open>
  Claim C5, as the two scripts have it. S26: a label without an entry in the ship-month
  table, of whatever kind, resolves to the default date 2026-03-01 and the default token
  MAR. F25: an ASCII text label without an entry resolves to the default date 2025-08-01,
  and its token is not a default but the first three characters of the stripped label in
  upper case.
\<close>

theorem unmapped_ship_period:
  "((\<forall>q. lbl = Num q \<longrightarrow> dict_of s26_ship_month_map q = None)
      \<longrightarrow> ship_period s26 lbl = Inr (''2026-03-01'', ''MAR''))
   \<and> (is_ascii t \<and> dict_of f25_ship_month_map t = None
      \<longrightarrow> ship_period f25 (Text t) = Inr (''2025-08-01'', upper (take 3 (strip t))))"
  by (cases lbl) (auto simp: s26_def f25_def coalesce_def)

text \<open>The label 726 in S26 and the label March in F25.\<close>

theorem unmapped_ship_period_witness:
  "dict_of s26_ship_month_map 726 = None
   \<and> ship_period s26 (Num 726) = Inr (''2026-03-01'', ''MAR'')
   \<and> is_ascii ''March''
   \<and> dict_of f25_ship_month_map ''March'' = None
   \<and> ship_period f25 (Text ''March'') = Inr (''2025-08-01'', ''MAR'')"
proof -
  have a: "dict_of s26_ship_month_map 726 = None" by code_simp
  have b: "dict_of f25_ship_month_map ''March'' = None" by code_simp
  have i: "is_ascii ''March''" by code_simp
  have u: "upper (take 3 (strip ''March'')) = ''MAR''" by code_simp
  from unmapped_ship_period [of "Num 726" "''March''"] a b i u
  have "ship_period s26 (Num 726) = Inr (''2026-03-01'', ''MAR'')
        \<and> ship_period f25 (Text ''March'') = Inr (''2025-08-01'', ''MAR'')"
    by simp
  with a b i show ?thesis by simp
qed

text \<open>
  Claim C5 as stated fails for F25: the unmapped labels March and April get different
  tokens, so the token is no fixed default, and the unmapped numeric label 726 makes the
  resolution fail with AttributeError.
\<close>

theorem f25_token_follows_the_label:
  "dict_of f25_ship_month_map ''March'' = None
   \<and> dict_of f25_ship_month_map ''April'' = None
   \<and> ship_period f25 (Text ''March'') = Inr (''2025-08-01'', ''MAR'')
   \<and> ship_period f25 (Text ''April'') = Inr (''2025-08-01'', ''APR'')
   \<and> ship_period f25 (Num 726) = Inl AttributeError"
  by code_simp

section \<open>Order numbers\<close>

lemma like_percent: "like_match ''%'' s"
  by (induction s) (simp_all add: like_match.simps(2))

lemma like_prefix:
  "wild_free p \<Longrightarrow> like_match (p @ ''%'') s = starts_with p s"
proof (induction p arbitrary: s)
  case Nil
  then show ?case by (simp add: like_percent starts_with_def)
next
  case (Cons c p)
  then have c: "c \<noteq> CHR ''%''" "c \<noteq> CHR ''_''" "c \<noteq> CHR 0x5C" and p: "wild_free p"
    by (auto simp: wild_free_def is_wild_def)
  show ?case
  proof (cases s)
    case Nil
    with c show ?thesis by (simp add: like_match.simps(2) starts_with_def)
  next
    case (Cons d s')
    with c Cons.IH [OF p, of s'] show ?thesis
      by (auto simp: like_match.simps(2) starts_with_def)
  qed
qed

lemma count_like_prefix:
  "wild_free p \<Longrightarrow>
     count_like p d = length (filter (\<lambda>x. starts_with p (o_order_number x)) (orders d))"
  by (simp add: count_like_def like_prefix)

lemma str_nat_nonempty: "str_nat n \<noteq> []"
  by (subst str_nat.simps) simp

lemma digit_char_inj: "a < 10 \<Longrightarrow> b < 10 \<Longrightarrow> digit_char a = digit_char b \<Longrightarrow> a = b"
proof -
  assume a: "a < 10" and b: "b < 10" and e: "digit_char a = digit_char b"
  from e have "of_char (char_of (48 + a) :: char) = (of_char (char_of (48 + b) :: char) :: nat)"
    by (simp add: digit_char_def)
  with a b show ?thesis by simp
qed

lemma str_nat_inj: "str_nat a = str_nat b \<Longrightarrow> a = b"
proof (induction a arbitrary: b rule: less_induct)
  case (less a)
  show ?case
  proof (cases "a < 10")
    case True
    then have la: "str_nat a = [digit_char a]" by (subst str_nat.simps) simp
    have "b < 10"
    proof (rule ccontr)
      assume "\<not> b < 10"
      then have "str_nat b = str_nat (b div 10) @ [digit_char (b mod 10)]"
        by (subst str_nat.simps) simp
      with la less.prems str_nat_nonempty [of "b div 10"] show False by simp
    qed
    then have "str_nat b = [digit_char b]" by (subst str_nat.simps) simp
    with la less.prems True \<open>b < 10\<close> show ?thesis by (auto dest: digit_char_inj)
  next
    case False
    then have la: "str_nat a = str_nat (a div 10) @ [digit_char (a mod 10)]"
      by (subst str_nat.simps) simp
    have nb: "\<not> b < 10"
    proof
      assume "b < 10"
      then have "str_nat b = [digit_char b]" by (subst str_nat.simps) simp
      with la less.prems str_nat_nonempty [of "a div 10"] show False by simp
    qed
    then have lb: "str_nat b = str_nat (b div 10) @ [digit_char (b mod 10)]"
      by (subst str_nat.simps) simp
    from la lb less.prems have e1: "str_nat (a div 10) = str_nat (b div 10)"
      and e2: "digit_char (a mod 10) = digit_char (b mod 10)" by simp_all
    from False have "a div 10 < a" by simp
    from less.IH [OF this e1] have d: "a div 10 = b div 10" .
    have "a mod 10 < 10" "b mod 10 < 10" by simp_all
    from digit_char_inj [OF this e2] have m: "a mod 10 = b mod 10" .
    from d m show ?thesis by (metis div_mult_mod_eq)
  qed
qed

text \<open>
  When the numbers that begin with the new order's number are that number itself and its
  suffixed forms 2 to \<open>count\<close>, the number given to the new order is not among them.
\<close>

lemma final_number_fresh:
  assumes w: "wild_free base"
    and k: "k = count_like base d"
    and sch: "\<forall>x\<in>set (orders d). starts_with base (o_order_number x) \<longrightarrow>
               o_order_number x = base
               \<or> (\<exists>j. 2 \<le> j \<and> j \<le> k \<and> o_order_number x = base @ ''-'' @ str_nat j)"
  shows "final_number base k \<notin> o_order_number ` set (orders d)"
proof
  assume "final_number base k \<in> o_order_number ` set (orders d)"
  then obtain x where x: "x \<in> set (orders d)" and e: "o_order_number x = final_number base k"
    by auto
  have st: "starts_with base (o_order_number x)"
    by (simp add: e final_number_def starts_with_def)
  with x have "filter (\<lambda>x. starts_with base (o_order_number x)) (orders d) \<noteq> []"
    by (auto simp: filter_empty_conv)
  with w k have "k > 0" by (simp add: count_like_prefix)
  then have f: "final_number base k = base @ ''-'' @ str_nat (k + 1)"
    by (simp add: final_number_def)
  from sch x st consider "o_order_number x = base"
    | j where "2 \<le> j" "j \<le> k" "o_order_number x = base @ ''-'' @ str_nat j"
    by blast
  then show False
  proof cases
    case 1
    with e f show False by simp
  next
    case (2 j)
    with e f have "str_nat j = str_nat (k + 1)" by simp
    then have "j = k + 1" by (rule str_nat_inj)
    with 2 show False by simp
  qed
qed

lemma resolve_SomeD:
  "resolve ids cl = Some (s, i) \<Longrightarrow> cl = Text s \<and> ids s = Some i \<and> i \<noteq> 0"
  by (cases cl) (auto split: option.splits if_splits)

lemma fold_ids_keys:
  "fold (\<lambda>(excel_name, db_name) ids.
           case dbm db_name of Some i \<Rightarrow> ids(excel_name \<mapsto> i) | None \<Rightarrow> ids) tbl m x = Some i
   \<Longrightarrow> m x = Some i \<or> x \<in> fst ` set tbl"
proof (induction tbl arbitrary: m)
  case Nil
  then show ?case by simp
next
  case (Cons e tbl)
  obtain a b where e: "e = (a, b)" by (cases e)
  from Cons.prems e Cons.IH [of "case dbm b of Some i \<Rightarrow> m(a \<mapsto> i) | None \<Rightarrow> m"]
  show ?case by (auto split: option.splits if_splits)
qed

lemma map_ids_keys: "map_ids tbl dbm x = Some i \<Longrightarrow> x \<in> fst ` set tbl"
  unfolding map_ids_def by (drule fold_ids_keys) simp

lemma dict_of_keys:
  assumes "x \<in> fst ` set tbl"
  shows "\<exists>v. dict_of tbl x = Some v \<and> (x, v) \<in> set tbl"
proof -
  from assms have "map_of (rev tbl) x \<noteq> None"
    by (simp add: map_of_eq_None_iff)
  then obtain v where v: "map_of (rev tbl) x = Some v" by auto
  then have "(x, v) \<in> set (rev tbl)" by (rule map_of_SomeD)
  with v show ?thesis by (auto simp: dict_of_def)
qed

lemma location_resolved:
  assumes "resolve (get_location_ids cfg d0) g = Some (gn, lid)"
  shows "\<exists>code. dict_of (location_map cfg) gn = Some code \<and> (gn, code) \<in> set (location_map cfg)"
proof -
  from resolve_SomeD [OF assms] have "get_location_ids cfg d0 gn = Some lid" by simp
  then have "gn \<in> fst ` set (location_map cfg)"
    unfolding get_location_ids_def by (rule map_ids_keys)
  then show ?thesis by (rule dict_of_keys)
qed

lemma order_step_resolved:
  assumes "resolve bids b = Some (bn, bid)" and "resolve lids g = Some (gn, lid)"
    and "ship_period cfg sm = Inr (date, tok)"
  shows "order_step cfg sid bids lids (b, g, sm) (c, om, n)
     = Inr (with_order c
              (order_of (next_id (map o_id (orders (working c))))
                 (final_number (base_number cfg tok bn gn)
                    (count_like (base_number cfg tok bn gn) (working c)))
                 sid bid lid date),
            om((b, g, sm) \<mapsto> next_id (map o_id (orders (working c)))), n + 1)"
  using assms
  by (simp add: order_step_def insert_order_def with_order_def order_of_def Let_def)

lemma order_step_skips:
  assumes "resolve bids b = None \<or> resolve lids g = None"
  shows "order_step cfg sid bids lids (b, g, sm) st = Inr st"
  using assms by (auto simp: order_step_def split: prod.splits option.splits)

text \<open>
  Claim C6, as the order loop has it. For a group with ASCII labels whose brand and gym
  resolve (and whose ship period resolves to a token), the gym has a code in the location
  table and one order is inserted. Its number is token, year, the first three characters of the brand
  label in upper case, and that code, joined by dashes; when \<open>count\<close> existing numbers
  match the pattern made of this number and \<open>%\<close>, and \<open>count\<close> is positive, the
  suffix \<open>-{count+1}\<close> follows, which makes it differ from the bare number. For a
  number without \<open>LIKE\<close> wildcards the matching numbers are those that begin with it,
  and the new number collides with no existing one provided the existing numbers that
  begin with it are the bare number and its suffixed forms 2 to \<open>count\<close>.
\<close>

theorem order_number_format:
  assumes "resolve bids b = Some (bn, bid)"
    and "resolve (get_location_ids cfg d0) g = Some (gn, lid)"
    and "ship_period cfg sm = Inr (date, tok)"
    and "is_ascii bn" and "ascii_label sm"
  shows "\<exists>code. (gn, code) \<in> set (location_map cfg) \<and>
     (let base = tok @ year_suffix cfg @ ''-'' @ upper (take 3 bn) @ ''-'' @ code;
          k = count_like base (working c);
          num = (if k > 0 then base @ ''-'' @ str_nat (k + 1) else base)
      in order_step cfg sid bids (get_location_ids cfg d0) (b, g, sm) (c, om, n)
           = Inr (with_order c
                    (order_of (next_id (map o_id (orders (working c)))) num sid bid lid date),
                  om((b, g, sm) \<mapsto> next_id (map o_id (orders (working c)))), n + 1)
         \<and> (k > 0 \<longrightarrow> num \<noteq> base)
         \<and> (wild_free base \<longrightarrow>
               k = length (filter (\<lambda>x. starts_with base (o_order_number x))
                                  (orders (working c))))
         \<and> (wild_free base
              \<and> (\<forall>x\<in>set (orders (working c)). starts_with base (o_order_number x) \<longrightarrow>
                    o_order_number x = base
                    \<or> (\<exists>j. 2 \<le> j \<and> j \<le> k \<and> o_order_number x = base @ ''-'' @ str_nat j))
              \<longrightarrow> num \<notin> o_order_number ` set (orders (working c))))"
proof -
  from location_resolved [OF assms(2)] obtain code
    where code: "dict_of (location_map cfg) gn = Some code"
      and mem: "(gn, code) \<in> set (location_map cfg)"
    by blast
  let ?base = "tok @ year_suffix cfg @ ''-'' @ upper (take 3 bn) @ ''-'' @ code"
  let ?k = "count_like ?base (working c)"
  let ?num = "if ?k > 0 then ?base @ ''-'' @ str_nat (?k + 1) else ?base"
  have bn: "base_number cfg tok bn gn = ?base"
    by (simp add: base_number_def code)
  have fin: "final_number ?base ?k = ?num"
    by (simp add: final_number_def)
  have step: "order_step cfg sid bids (get_location_ids cfg d0) (b, g, sm) (c, om, n)
           = Inr (with_order c
                    (order_of (next_id (map o_id (orders (working c)))) ?num sid bid lid date),
                  om((b, g, sm) \<mapsto> next_id (map o_id (orders (working c)))), n + 1)"
    using order_step_resolved [OF assms(1,2,3), of sid c om n] by (simp only: bn fin)
  have ne: "?k > 0 \<longrightarrow> ?num \<noteq> ?base" by simp
  have cnt: "wild_free ?base \<longrightarrow>
               ?k = length (filter (\<lambda>x. starts_with ?base (o_order_number x))
                                  (orders (working c)))"
    by (simp add: count_like_prefix)
  have fresh: "wild_free ?base
              \<and> (\<forall>x\<in>set (orders (working c)). starts_with ?base (o_order_number x) \<longrightarrow>
                    o_order_number x = ?base
                    \<or> (\<exists>j. 2 \<le> j \<and> j \<le> ?k \<and> o_order_number x = ?base @ ''-'' @ str_nat j))
              \<longrightarrow> ?num \<notin> o_order_number ` set (orders (working c))"
    using final_number_fresh [of ?base ?k "working c"] fin by auto
  from mem step ne cnt fresh show ?thesis
    unfolding Let_def by (intro exI [of _ code] conjI)
qed

text \<open>
  The scenario's group in F25 when one order numbered AUG25-PRA-SLC exists: the new order
  gets the suffix 2 and collides with nothing.
\<close>

theorem order_number_format_witness:
  "resolve (get_brand_ids f25 shop_db) (Text ''Prana'') = Some (''Prana'', 7)
   \<and> resolve (get_location_ids f25 shop_db) (Text ''SLC'') = Some (''SLC'', 3)
   \<and> ship_period f25 (Text ''Aug'') = Inr (''2025-08-01'', ''AUG'')
   \<and> is_ascii ''Prana'' \<and> ascii_label (Text ''Aug'')
   \<and> count_like ''AUG25-PRA-SLC'' aug_db = 1
   \<and> order_step f25 4 (get_brand_ids f25 shop_db) (get_location_ids f25 shop_db)
        (Text ''Prana'', Text ''SLC'', Text ''Aug'') (connect aug_db, Map.empty, 0)
       = Inr (with_order (connect aug_db)
                (order_of 10 ''AUG25-PRA-SLC-2'' 4 7 3 ''2025-08-01''),
              [(Text ''Prana'', Text ''SLC'', Text ''Aug'') \<mapsto> 10], 1)
   \<and> ''AUG25-PRA-SLC-2'' \<notin> o_order_number ` set (orders aug_db)"
proof -
  have h1: "resolve (get_brand_ids f25 shop_db) (Text ''Prana'') = Some (''Prana'', 7)"
    by code_simp
  have h2: "resolve (get_location_ids f25 shop_db) (Text ''SLC'') = Some (''SLC'', 3)"
    by code_simp
  have h3: "ship_period f25 (Text ''Aug'') = Inr (''2025-08-01'', ''AUG'')"
    by code_simp
  have h4: "is_ascii ''Prana''"
    by code_simp
  have h5: "ascii_label (Text ''Aug'')"
    by code_simp
  have k: "count_like ''AUG25-PRA-SLC'' aug_db = 1"
    by code_simp
  have w: "wild_free ''AUG25-PRA-SLC''"
    by code_simp
  have u: "upper (take 3 ''Prana'') = ''PRA''"
    by code_simp
  have n: "str_nat (Suc (Suc 0)) = ''2''" "next_id (map o_id (orders aug_db)) = 10"
    by code_simp+
  have y: "year_suffix f25 = ''25''"
    by (simp add: f25_def)
  have ex: "orders aug_db = [july_order\<lparr>o_order_number := ''AUG25-PRA-SLC'',
                                         o_ship_date := ''2025-08-01''\<rparr>]"
    by (simp add: aug_db_def shop_db_def empty_db_def)
  have wk: "working (connect aug_db) = aug_db"
    by (simp add: connect_def)
  from order_number_format [OF h1 h2 h3 h4 h5, where sid = 4 and c = "connect aug_db" and om = Map.empty
      and n = 0]
  obtain code where mem: "(''SLC'', code) \<in> set (location_map f25)"
    and rest: "(let base = ''AUG'' @ year_suffix f25 @ ''-'' @ upper (take 3 ''Prana'') @ ''-'' @ code;
          k = count_like base (working (connect aug_db));
          num = (if k > 0 then base @ ''-'' @ str_nat (k + 1) else base)
      in order_step f25 4 (get_brand_ids f25 shop_db) (get_location_ids f25 shop_db)
           (Text ''Prana'', Text ''SLC'', Text ''Aug'') (connect aug_db, Map.empty, 0)
           = Inr (with_order (connect aug_db)
                    (order_of (next_id (map o_id (orders (working (connect aug_db))))) num
                       4 7 3 ''2025-08-01''),
                  [(Text ''Prana'', Text ''SLC'', Text ''Aug'')
                     \<mapsto> next_id (map o_id (orders (working (connect aug_db))))], 0 + 1)
         \<and> (k > 0 \<longrightarrow> num \<noteq> base)
         \<and> (wild_free base \<longrightarrow>
               k = length (filter (\<lambda>x. starts_with base (o_order_number x))
                                  (orders (working (connect aug_db)))))
         \<and> (wild_free base
              \<and> (\<forall>x\<in>set (orders (working (connect aug_db))).
                    starts_with base (o_order_number x) \<longrightarrow>
                    o_order_number x = base
                    \<or> (\<exists>j. 2 \<le> j \<and> j \<le> k \<and> o_order_number x = base @ ''-'' @ str_nat j))
              \<longrightarrow> num \<notin> o_order_number ` set (orders (working (connect aug_db)))))"
    by blast
  from mem have code: "code = ''SLC''"
    by (auto simp: f25_def f25_location_map_def)
  from rest have step: "order_step f25 4 (get_brand_ids f25 shop_db) (get_location_ids f25 shop_db)
        (Text ''Prana'', Text ''SLC'', Text ''Aug'') (connect aug_db, Map.empty, 0)
       = Inr (with_order (connect aug_db)
                (order_of 10 ''AUG25-PRA-SLC-2'' 4 7 3 ''2025-08-01''),
              [(Text ''Prana'', Text ''SLC'', Text ''Aug'') \<mapsto> 10], 1)"
    unfolding Let_def code y u wk by (simp add: k n)
  from rest have fresh: "''AUG25-PRA-SLC-2'' \<notin> o_order_number ` set (orders aug_db)"
    unfolding Let_def code y u wk using w by (simp add: k n ex)
  show ?thesis
    by (rule conjI [OF h1 conjI [OF h2 conjI [OF h3 conjI [OF h4 conjI [OF h5
          conjI [OF k conjI [OF step fresh]]]]]]])
qed

text \<open>
  Claim C6 as stated fails in its last part: when the only existing order with the
  scenario's number is the one with the suffix 2, the count is 1 and the new order gets
  the suffix 2 as well.
\<close>

theorem suffixed_number_can_collide:
  "map o_order_number (orders clash_db) = [''AUG25-PRA-SLC-2'']
   \<and> count_like ''AUG25-PRA-SLC'' clash_db = 1
   \<and> map o_order_number (orders (fst (main f25 plain_lib [prana_row] clash_db)))
       = [''AUG25-PRA-SLC-2'', ''AUG25-PRA-SLC-2'']"
  by code_simp

section \<open>Location codes\<close>

lemma unknown_gym_unresolved:
  assumes "\<forall>gn. g = Text gn \<longrightarrow> dict_of (location_map cfg) gn = None"
  shows "resolve (get_location_ids cfg d0) g = None"
proof (rule ccontr)
  assume "resolve (get_location_ids cfg d0) g \<noteq> None"
  then obtain gn lid where r: "resolve (get_location_ids cfg d0) g = Some (gn, lid)"
    by auto
  from resolve_SomeD [OF r] location_resolved [OF r] assms show False by auto
qed

lemma order_step_canonical:
  assumes "order_step cfg sid bids (get_location_ids cfg d0) key (c, om, n) = Inr (c', om', n')"
  shows "\<exists>new. orders (working c') = orders (working c) @ new \<and> n' = n + length new
     \<and> (\<forall>x\<in>set new. \<exists>base code k. o_order_number x = final_number (base @ ''-'' @ code) k
            \<and> code \<in> snd ` set (location_map cfg))"
proof -
  obtain b g sm where key: "key = (b, g, sm)" by (cases key)
  let ?lids = "get_location_ids cfg d0"
  show ?thesis
  proof (cases "resolve bids b = None \<or> resolve ?lids g = None")
    case True
    from order_step_skips [OF True] assms key have "c' = c" "n' = n" by simp_all
    then show ?thesis by simp
  next
    case False
    then obtain bn bid gn lid where rb: "resolve bids b = Some (bn, bid)"
      and rl: "resolve ?lids g = Some (gn, lid)" by auto
    from assms key rb rl obtain date tok where sp: "ship_period cfg sm = Inr (date, tok)"
      by (auto simp: order_step_def split: sum.splits)
    from location_resolved [OF rl] obtain code
      where code: "dict_of (location_map cfg) gn = Some code"
        and mem: "(gn, code) \<in> set (location_map cfg)" by blast
    let ?base = "tok @ year_suffix cfg @ ''-'' @ upper (take 3 bn)"
    let ?x = "order_of (next_id (map o_id (orders (working c))))
                 (final_number (base_number cfg tok bn gn)
                    (count_like (base_number cfg tok bn gn) (working c)))
                 sid bid lid date"
    have bn: "base_number cfg tok bn gn = ?base @ ''-'' @ code"
      by (simp add: base_number_def code)
    from order_step_resolved [OF rb rl sp, of sid c om n] assms key
    have c': "c' = with_order c ?x" and n': "n' = n + 1" by simp_all
    have "o_order_number ?x
            = final_number (?base @ ''-'' @ code) (count_like (base_number cfg tok bn gn) (working c))"
      by (simp add: order_of_def bn)
    moreover from mem have "code \<in> snd ` set (location_map cfg)" by force
    ultimately have "\<exists>base code k. o_order_number ?x = final_number (base @ ''-'' @ code) k
            \<and> code \<in> snd ` set (location_map cfg)" by blast
    then show ?thesis
      by (intro exI [of _ "[?x]"]) (simp add: c' n' with_order_def)
  qed
qed

lemma order_loop_canonical:
  "order_loop cfg sid bids (get_location_ids cfg d0) ks (c, om, n) = Inr (c', om', n') \<Longrightarrow>
   \<exists>new. orders (working c') = orders (working c) @ new \<and> n' = n + length new
     \<and> (\<forall>x\<in>set new. \<exists>base code k. o_order_number x = final_number (base @ ''-'' @ code) k
            \<and> code \<in> snd ` set (location_map cfg))"
proof (induction ks arbitrary: c om n)
  case Nil
  then show ?case by simp
next
  case (Cons key ks)
  let ?lids = "get_location_ids cfg d0"
  from Cons.prems obtain c1 om1 n1
    where s: "order_step cfg sid bids ?lids key (c, om, n) = Inr (c1, om1, n1)"
      and l: "order_loop cfg sid bids ?lids ks (c1, om1, n1) = Inr (c', om', n')"
    by (auto split: sum.splits)
  from order_step_canonical [OF s] obtain new1
    where a1: "orders (working c1) = orders (working c) @ new1" "n1 = n + length new1"
      and p1: "\<forall>x\<in>set new1. \<exists>base code k. o_order_number x = final_number (base @ ''-'' @ code) k
            \<and> code \<in> snd ` set (location_map cfg)" by blast
  from Cons.IH [OF l] obtain new2
    where a2: "orders (working c') = orders (working c1) @ new2" "n' = n1 + length new2"
      and p2: "\<forall>x\<in>set new2. \<exists>base code k. o_order_number x = final_number (base @ ''-'' @ code) k
            \<and> code \<in> snd ` set (location_map cfg)" by blast
  from p1 p2 have "\<forall>x\<in>set (new1 @ new2). \<exists>base code k.
       o_order_number x = final_number (base @ ''-'' @ code) k
       \<and> code \<in> snd ` set (location_map cfg)" by auto
  with a1 a2 show ?case by (intro exI [of _ "new1 @ new2"]) simp
qed

lemma update_totals_numbers:
  "map o_order_number (orders (update_totals sid w)) = map o_order_number (orders w)"
  by (simp add: update_totals_def comp_def if_distrib cong: if_cong)

lemma real_location_codes:
  "cfg = f25 \<or> cfg = s26 \<Longrightarrow> code \<in> snd ` set (location_map cfg) \<Longrightarrow>
     code \<in> {''SLC'', ''SOMA'', ''OGD''} \<and> code \<noteq> ''UNK''"
  by (auto simp: f25_def s26_def f25_location_map_def s26_location_map_def)

text \<open>
  Claim C10: the orders that a completed run inserts are the last \<open>orders_created\<close>
  orders of the committed database, and the number of each ends, before a possible
  counter, in a code of the location table; with the tables of the two scripts that is
  SLC, SOMA or OGD and never UNK. The fallback is out of reach because a group whose gym
  has no entry in the location table is skipped by the order loop.
\<close>

theorem inserted_orders_have_canonical_location_code:
  assumes "main cfg L sheet d = (d', Inr s)"
  shows "(\<exists>new. map o_order_number (orders d') = map o_order_number (orders d) @ new
            \<and> length new = orders_created s
            \<and> (\<forall>num\<in>set new. \<exists>base code k. num = final_number (base @ ''-'' @ code) k
                  \<and> code \<in> snd ` set (location_map cfg)
                  \<and> (cfg = f25 \<or> cfg = s26 \<longrightarrow>
                        code \<in> {''SLC'', ''SOMA'', ''OGD''} \<and> code \<noteq> ''UNK'')))
       \<and> (\<forall>b g sm sid bids d0 st.
             (\<forall>gn. g = Text gn \<longrightarrow> dict_of (location_map cfg) gn = None) \<longrightarrow>
             order_step cfg sid bids (get_location_ids cfg d0) (b, g, sm) st = Inr st)"
proof -
  from assms obtain df c' where b: "body cfg L df (connect d) = Inr (c', s)"
    and d': "d' = committed c'"
    by (rule main_completed)
  from b obtain d1 c2 pids c3 om c4 where
    s1: "season_stage cfg (working (connect d)) = (d1, sum_season_id s)" and
    s2: "product_stage (get_brand_ids cfg d1) (sum_season_id s) df ((connect d)\<lparr>working := d1\<rparr>)
       = (c2, pids, products_created s)" and
    s3: "order_stage cfg (sum_season_id s) (get_brand_ids cfg d1) (get_location_ids cfg d1) df c2
       = Inr (c3, om, orders_created s)" and
    s4: "item_stage L pids om df c3 = Inr (c4, items_added s, items_skipped s)" and
    c': "c' = commit (c4\<lparr>working := update_totals (sum_season_id s) (working c4)\<rparr>)"
    by (rule body_stages)
  have o1: "orders d1 = orders d"
    using season_stage_frame(4) [OF s1] by (simp add: connect_def)
  have o2: "orders (working c2) = orders d1"
    using product_stage_frame [OF s2] by simp
  from s3 have "order_loop cfg (sum_season_id s) (get_brand_ids cfg d1)
                  (get_location_ids cfg d1) (groupby df) (c2, Map.empty, 0)
                = Inr (c3, om, orders_created s)"
    by (simp add: order_stage_def)
  from order_loop_canonical [OF this] obtain new where
    o3: "orders (working c3) = orders (working c2) @ new"
    and n: "orders_created s = length new"
    and p: "\<forall>x\<in>set new. \<exists>base code k. o_order_number x = final_number (base @ ''-'' @ code) k
            \<and> code \<in> snd ` set (location_map cfg)"
    by auto
  have o4: "orders (working c4) = orders (working c3)"
    using s4 by (auto simp: item_stage_def dest: item_loop_frame)
  have "d' = update_totals (sum_season_id s) (working c4)"
    by (simp add: d' c' commit_def)
  then have "map o_order_number (orders d') = map o_order_number (orders (working c4))"
    by (simp add: update_totals_numbers)
  with o1 o2 o3 o4
  have m: "map o_order_number (orders d') = map o_order_number (orders d) @ map o_order_number new"
    by simp
  have q: "\<exists>base code k.
       num = final_number (base @ ''-'' @ code) k
       \<and> code \<in> snd ` set (location_map cfg)
       \<and> (cfg = f25 \<or> cfg = s26 \<longrightarrow> code \<in> {''SLC'', ''SOMA'', ''OGD''} \<and> code \<noteq> ''UNK'')"
    if "num \<in> set (map o_order_number new)" for num
  proof -
    from that obtain x where x: "x \<in> set new" "num = o_order_number x" by auto
    with p obtain base code k where e: "num = final_number (base @ ''-'' @ code) k"
      and c: "code \<in> snd ` set (location_map cfg)" by blast
    have "cfg = f25 \<or> cfg = s26 \<longrightarrow> code \<in> {''SLC'', ''SOMA'', ''OGD''} \<and> code \<noteq> ''UNK''"
      using real_location_codes [OF _ c] by blast
    with e c show ?thesis by blast
  qed
  have first: "\<exists>new. map o_order_number (orders d') = map o_order_number (orders d) @ new
            \<and> length new = orders_created s
            \<and> (\<forall>num\<in>set new. \<exists>base code k. num = final_number (base @ ''-'' @ code) k
                  \<and> code \<in> snd ` set (location_map cfg)
                  \<and> (cfg = f25 \<or> cfg = s26 \<longrightarrow>
                        code \<in> {''SLC'', ''SOMA'', ''OGD''} \<and> code \<noteq> ''UNK''))"
    using m n q by (intro exI [of _ "map o_order_number new"]) simp
  have second: "\<forall>b g sm sid bids d0 st.
             (\<forall>gn. g = Text gn \<longrightarrow> dict_of (location_map cfg) gn = None) \<longrightarrow>
             order_step cfg sid bids (get_location_ids cfg d0) (b, g, sm) st = Inr st"
  proof (intro allI impI)
    fix b g sm sid bids d0 st
    assume "\<forall>gn. g = Text gn \<longrightarrow> dict_of (location_map cfg) gn = None"
    then have "resolve (get_location_ids cfg d0) g = None"
      by (rule unknown_gym_unresolved)
    then have "resolve bids b = None \<or> resolve (get_location_ids cfg d0) g = None" ..
    then show "order_step cfg sid bids (get_location_ids cfg d0) (b, g, sm) st = Inr st"
      by (rule order_step_skips)
  qed
  from first second show ?thesis by (rule conjI)
qed

text \<open>
  The scenario's row and the row for the unknown gym Moab, imported by F25 into a database
  that holds one order: one order is added, numbered with the code SLC, and the group of
  the unknown gym is skipped.
\<close>

theorem inserted_orders_have_canonical_location_code_witness:
  "main f25 plain_lib [prana_row, moab_row] aug_db
     = (aug_result, Inr \<lparr>sum_season_id = 4, products_created = 1, orders_created = 1,
                          items_added = 1, items_skipped = 1\<rparr>)
   \<and> map o_order_number (orders aug_result)
       = map o_order_number (orders aug_db) @ [''AUG25-PRA-SLC-2'']
   \<and> (\<exists>base code k. ''AUG25-PRA-SLC-2'' = final_number (base @ ''-'' @ code) k
         \<and> code \<in> snd ` set (location_map f25)
         \<and> code \<in> {''SLC'', ''SOMA'', ''OGD''} \<and> code \<noteq> ''UNK'')
   \<and> dict_of (location_map f25) ''Moab'' = None
   \<and> order_step f25 4 (get_brand_ids f25 aug_db) (get_location_ids f25 aug_db)
        (Text ''Prana'', Text ''Moab'', Text ''Aug'') (connect aug_db, Map.empty, 0)
       = Inr (connect aug_db, Map.empty, 0)"
proof -
  let ?s = "\<lparr>sum_season_id = 4, products_created = 1, orders_created = 1,
             items_added = 1, items_skipped = 1\<rparr>"
  have h: "main f25 plain_lib [prana_row, moab_row] aug_db = (aug_result, Inr ?s)"
    by code_simp
  have nums: "map o_order_number (orders aug_result)
       = map o_order_number (orders aug_db) @ [''AUG25-PRA-SLC-2'']"
    by code_simp
  have moab: "dict_of (location_map f25) ''Moab'' = None"
    by code_simp
  note t = inserted_orders_have_canonical_location_code [OF h]
  from t have "\<exists>new. map o_order_number (orders aug_result)
                    = map o_order_number (orders aug_db) @ new
            \<and> length new = orders_created ?s
            \<and> (\<forall>num\<in>set new. \<exists>base code k. num = final_number (base @ ''-'' @ code) k
                  \<and> code \<in> snd ` set (location_map f25)
                  \<and> (f25 = f25 \<or> f25 = s26 \<longrightarrow>
                        code \<in> {''SLC'', ''SOMA'', ''OGD''} \<and> code \<noteq> ''UNK''))"
    by (rule conjunct1)
  then obtain new where
    m: "map o_order_number (orders aug_result) = map o_order_number (orders aug_db) @ new"
    and p: "\<forall>num\<in>set new. \<exists>base code k. num = final_number (base @ ''-'' @ code) k
                  \<and> code \<in> snd ` set (location_map f25)
                  \<and> (f25 = f25 \<or> f25 = s26 \<longrightarrow>
                        code \<in> {''SLC'', ''SOMA'', ''OGD''} \<and> code \<noteq> ''UNK'')"
    by (elim exE conjE)
  from m nums have "new = [''AUG25-PRA-SLC-2'']" by simp
  with p have a: "\<exists>base code k. ''AUG25-PRA-SLC-2'' = final_number (base @ ''-'' @ code) k
         \<and> code \<in> snd ` set (location_map f25)
         \<and> code \<in> {''SLC'', ''SOMA'', ''OGD''} \<and> code \<noteq> ''UNK''"
    by simp
  have un: "dict_of (location_map f25) gn = None" if "Text ''Moab'' = Text gn" for gn
    using moab that by simp
  note sk = t [THEN conjunct2, rule_format]
  have b: "order_step f25 4 (get_brand_ids f25 aug_db) (get_location_ids f25 aug_db)
        (Text ''Prana'', Text ''Moab'', Text ''Aug'') (connect aug_db, Map.empty, 0)
       = Inr (connect aug_db, Map.empty, 0)"
    by (rule sk [OF un])
  show ?thesis by (rule conjI [OF h conjI [OF nums conjI [OF a conjI [OF moab b]]]])
qed

section \<open>Products\<close>

lemma existing_products_upcs:
  "existing_products d = dict_of (concat (map (\<lambda>p. case p_upc p of None \<Rightarrow> []
                                                 | Some u \<Rightarrow> [(u, p_id p)]) (products d)))"
  by (simp add: existing_products_def)

lemma fst_upc_pairs:
  "map fst (concat (map (\<lambda>p. case p_upc p of None \<Rightarrow> [] | Some u \<Rightarrow> [(u, p_id p)]) ps))
     = concat (map (\<lambda>p. case p_upc p of None \<Rightarrow> [] | Some u \<Rightarrow> [u]) ps)"
  by (induction ps) (auto split: option.splits)

lemma upc_pair_mem:
  "p \<in> set ps \<Longrightarrow> p_upc p = Some u \<Longrightarrow>
     (u, p_id p) \<in> set (concat (map (\<lambda>p. case p_upc p of None \<Rightarrow> []
                                           | Some u \<Rightarrow> [(u, p_id p)]) ps))"
  by (induction ps) (auto split: option.splits)

lemma existing_products_unique:
  assumes "distinct (upcs d)" and "p \<in> set (products d)" and "p_upc p = Some u"
  shows "existing_products d u = Some (p_id p)"
proof -
  let ?kvs = "concat (map (\<lambda>p. case p_upc p of None \<Rightarrow> [] | Some u \<Rightarrow> [(u, p_id p)])
                          (products d))"
  from assms(1) have "distinct (map fst (rev ?kvs))"
    by (simp add: upcs_def fst_upc_pairs rev_map [symmetric])
  moreover from upc_pair_mem [OF assms(2,3)] have "(u, p_id p) \<in> set (rev ?kvs)" by simp
  ultimately have "map_of (rev ?kvs) u = Some (p_id p)" by (rule map_of_is_SomeI)
  then show ?thesis by (simp add: existing_products_def dict_of_def)
qed

lemma existing_products_iff:
  "existing_products d u \<noteq> None \<longleftrightarrow> (\<exists>p\<in>set (products d). p_upc p = Some u)"
proof -
  let ?kvs = "concat (map (\<lambda>p. case p_upc p of None \<Rightarrow> [] | Some u \<Rightarrow> [(u, p_id p)])
                          (products d))"
  have m: "u \<in> set (concat (map (\<lambda>p. case p_upc p of None \<Rightarrow> [] | Some u \<Rightarrow> [u]) ps))
          \<longleftrightarrow> (\<exists>p\<in>set ps. p_upc p = Some u)" for ps
    by (induction ps) (auto split: option.splits)
  have "existing_products d u \<noteq> None \<longleftrightarrow> u \<in> set (map fst (rev ?kvs))"
    unfolding existing_products_def dict_of_def map_of_eq_None_iff by simp
  also have "\<dots> \<longleftrightarrow> u \<in> set (map fst ?kvs)" by (simp only: set_map set_rev)
  also have "\<dots> \<longleftrightarrow> (\<exists>p\<in>set (products d). p_upc p = Some u)"
    by (simp only: fst_upc_pairs m)
  finally show ?thesis .
qed

lemma product_step_reuse:
  assumes "product_step ex bids sid r (c, pids, n) = (c', pids', n')" and "ex u = Some i"
    and "pids u = Some i \<or> u = strip (c_upc r)"
  shows "pids' u = Some i"
  using assms
  by (auto simp: product_step_def Let_def split: option.splits prod.splits if_splits)

lemma product_loop_reuse:
  "product_loop ex bids sid rs (c, pids, n) = (c', pids', n') \<Longrightarrow> ex u = Some i \<Longrightarrow>
     pids u = Some i \<or> u \<in> (\<lambda>r. strip (c_upc r)) ` set rs \<Longrightarrow> pids' u = Some i"
proof (induction rs arbitrary: c pids n)
  case Nil
  then show ?case by simp
next
  case (Cons r rs)
  obtain c1 p1 n1 where s: "product_step ex bids sid r (c, pids, n) = (c1, p1, n1)"
    by (cases "product_step ex bids sid r (c, pids, n)") auto
  from Cons.prems(1) s have l: "product_loop ex bids sid rs (c1, p1, n1) = (c', pids', n')"
    by simp
  from Cons.prems(3) consider "pids u = Some i \<or> u = strip (c_upc r)"
    | "u \<in> (\<lambda>r. strip (c_upc r)) ` set rs" by auto
  then show ?case
  proof cases
    case 1
    from product_step_reuse [OF s Cons.prems(2) 1] have "p1 u = Some i" .
    with Cons.IH [OF l Cons.prems(2)] show ?thesis by simp
  next
    case 2
    with Cons.IH [OF l Cons.prems(2)] show ?thesis by simp
  qed
qed

lemma drop_duplicates_upcs:
  "c_upc ` set (drop_duplicates_upc seen rs) = c_upc ` set rs - set seen"
  by (induction rs arbitrary: seen) auto

text \<open>
  Claim C7: a product whose UPC is in the products table when the product stage starts
  (the UPCs being unique, as the conflict target of the insert requires) and is the UPC of
  a cleaned row has its identifier entered in \<open>product_ids\<close>, and the stage writes
  nothing into the rows that were there: the table afterwards is the old table followed by
  the new products.
\<close>

theorem existing_product_reused_unchanged:
  assumes "product_stage bids sid df c = (c', pids, n)"
    and "distinct (upcs (working c))"
    and "p \<in> set (products (working c))" and "p_upc p = Some (strip (c_upc r))"
    and "r \<in> set df"
  shows "pids (strip (c_upc r)) = Some (p_id p)
       \<and> (\<exists>new. products (working c') = products (working c) @ new)
       \<and> p \<in> set (products (working c'))"
proof -
  let ?u = "strip (c_upc r)"
  have ex: "existing_products (working c) ?u = Some (p_id p)"
    using assms(2,3,4) by (rule existing_products_unique)
  from assms(5) have "c_upc r \<in> c_upc ` set (drop_duplicates_upc [] df)"
    by (simp add: drop_duplicates_upcs)
  then have "?u \<in> (\<lambda>r. strip (c_upc r)) ` set (drop_duplicates_upc [] df)" by auto
  then have k: "Map.empty ?u = Some (p_id p)
              \<or> ?u \<in> (\<lambda>r. strip (c_upc r)) ` set (drop_duplicates_upc [] df)" ..
  from assms(1) have l: "product_loop (existing_products (working c)) bids sid
          (drop_duplicates_upc [] df) (c, Map.empty, 0) = (c', pids, n)"
    by (simp add: product_stage_def)
  have one: "pids ?u = Some (p_id p)" by (rule product_loop_reuse [OF l ex k])
  from product_stage_frame [OF assms(1)]
  have two: "\<exists>new. products (working c') = products (working c) @ new" by simp
  with assms(3) have three: "p \<in> set (products (working c'))" by auto
  from one two three show ?thesis by simp
qed

text \<open>
  The scenario's row met by a product of the same UPC with other attributes: the stage
  maps the UPC to the old identifier 5, creates nothing and leaves the old row as it was.
\<close>

theorem existing_product_reused_unchanged_witness:
  "distinct (upcs (working (connect stock_db)))
   \<and> old_pants \<in> set (products (working (connect stock_db)))
   \<and> p_upc old_pants = Some (strip (c_upc prana_crow))
   \<and> fst (snd (product_stage (get_brand_ids f25 stock_db) 1 [prana_crow] (connect stock_db)))
        ''012345'' = Some 5
   \<and> products (working (fst (product_stage (get_brand_ids f25 stock_db) 1 [prana_crow]
                                 (connect stock_db)))) = [old_pants]
   \<and> snd (snd (product_stage (get_brand_ids f25 stock_db) 1 [prana_crow] (connect stock_db)))
       = 0"
proof -
  let ?st = "product_stage (get_brand_ids f25 stock_db) 1 [prana_crow] (connect stock_db)"
  have h: "?st = (fst ?st, fst (snd ?st), snd (snd ?st))" by simp
  have d: "distinct (upcs (working (connect stock_db)))" by code_simp
  have m: "old_pants \<in> set (products (working (connect stock_db)))"
    by (simp add: connect_def stock_db_def)
  have u: "p_upc old_pants = Some (strip (c_upc prana_crow))" by code_simp
  have r: "prana_crow \<in> set [prana_crow]" by simp
  have k: "strip (c_upc prana_crow) = ''012345''" by code_simp
  have i: "p_id old_pants = 5" by (simp add: old_pants_def)
  from existing_product_reused_unchanged [OF h d m u r]
  have a: "fst (snd ?st) ''012345'' = Some 5" by (simp add: k i)
  have b: "products (working (fst ?st)) = [old_pants]" by code_simp
  have c: "snd (snd ?st) = 0" by code_simp
  show ?thesis by (rule conjI [OF d conjI [OF m conjI [OF u conjI [OF a conjI [OF b c]]]]])
qed

section \<open>Running the import again\<close>

lemma insert_product_has_upc:
  assumes "insert_product u r b s d = (d', i)"
  shows "\<exists>p\<in>set (products d'). p_upc p = Some u"
proof (cases "find (\<lambda>p. p_upc p = Some u) (products d)")
  case None
  with assms show ?thesis by (auto simp: insert_product_def Let_def)
next
  case (Some q)
  then have "q \<in> set (products d)" "p_upc q = Some u"
    by (auto simp: find_Some_iff)
  moreover from assms Some have "products d' = products d"
    by (auto simp: insert_product_def reset_upc_id)
  ultimately show ?thesis by auto
qed

lemma product_step_covers:
  assumes "product_step ex bids sid r (c, pids, n) = (c', pids', n')"
  shows "ex (strip (c_upc r)) \<noteq> None \<or> resolve bids (c_brand r) = None
       \<or> (\<exists>p\<in>set (products (working c')). p_upc p = Some (strip (c_upc r)))"
  using assms
  by (auto simp: product_step_def Let_def split: option.splits prod.splits
      dest: insert_product_has_upc)

lemma product_loop_covers:
  "product_loop ex bids sid rs (c, pids, n) = (c', pids', n') \<Longrightarrow> r \<in> set rs \<Longrightarrow>
     ex (strip (c_upc r)) \<noteq> None \<or> resolve bids (c_brand r) = None
     \<or> (\<exists>p\<in>set (products (working c')). p_upc p = Some (strip (c_upc r)))"
proof (induction rs arbitrary: c pids n)
  case Nil
  then show ?case by simp
next
  case (Cons a rs)
  obtain c1 p1 n1 where s: "product_step ex bids sid a (c, pids, n) = (c1, p1, n1)"
    by (cases "product_step ex bids sid a (c, pids, n)") auto
  from Cons.prems(1) s have l: "product_loop ex bids sid rs (c1, p1, n1) = (c', pids', n')"
    by simp
  show ?case
  proof (cases "r = a")
    case True
    from product_loop_frame [OF l] obtain new
      where "products (working c') = products (working c1) @ new" by blast
    with product_step_covers [OF s] True show ?thesis by auto
  next
    case False
    with Cons.prems(2) have "r \<in> set rs" by simp
    from Cons.IH [OF l this] show ?thesis .
  qed
qed

lemma product_step_idle:
  assumes "ex (strip (c_upc r)) \<noteq> None \<or> resolve bids (c_brand r) = None"
    and "product_step ex bids sid r (c, pids, n) = (c', pids', n')"
  shows "c' = c \<and> n' = n"
  using assms by (auto simp: product_step_def Let_def split: option.splits)

lemma product_loop_idle:
  "\<forall>r\<in>set rs. ex (strip (c_upc r)) \<noteq> None \<or> resolve bids (c_brand r) = None \<Longrightarrow>
   product_loop ex bids sid rs (c, pids, n) = (c', pids', n') \<Longrightarrow> c' = c \<and> n' = n"
proof (induction rs arbitrary: pids)
  case Nil
  then show ?case by simp
next
  case (Cons a rs)
  obtain c1 p1 n1 where s: "product_step ex bids sid a (c, pids, n) = (c1, p1, n1)"
    by (cases "product_step ex bids sid a (c, pids, n)") auto
  from Cons.prems(1) have "ex (strip (c_upc a)) \<noteq> None \<or> resolve bids (c_brand a) = None"
    by simp
  from product_step_idle [OF this s] have e: "c1 = c" "n1 = n" by simp_all
  from Cons.prems(2) s e have "product_loop ex bids sid rs (c, p1, n) = (c', pids', n')"
    by simp
  moreover from Cons.prems(1)
  have "\<forall>r\<in>set rs. ex (strip (c_upc r)) \<noteq> None \<or> resolve bids (c_brand r) = None" by simp
  ultimately show ?case by (rule Cons.IH [rotated])
qed

lemma get_brand_ids_cong: "brands d = brands d' \<Longrightarrow> get_brand_ids cfg d = get_brand_ids cfg d'"
  by (simp add: get_brand_ids_def)

lemma existing_products_cong:
  "products d = products d' \<Longrightarrow> existing_products d = existing_products d'"
  by (simp add: existing_products_def)

text \<open>What a completed run leaves in the brands and products tables.\<close>

lemma completed_run_products:
  assumes "clean L sheet = Inr df" and "main cfg L sheet d = (d', Inr s)"
  shows "brands d' = brands d"
    and "\<exists>new. products d' = products d @ new"
    and "\<forall>r\<in>set (drop_duplicates_upc [] df).
           existing_products d' (strip (c_upc r)) \<noteq> None
           \<or> resolve (get_brand_ids cfg d') (c_brand r) = None"
proof -
  from assms obtain c' where b: "body cfg L df (connect d) = Inr (c', s)"
    and d': "d' = committed c'"
    by (auto elim!: main_completed)
  from b obtain d1 c2 pids c3 om c4 where
    s1: "season_stage cfg (working (connect d)) = (d1, sum_season_id s)" and
    s2: "product_stage (get_brand_ids cfg d1) (sum_season_id s) df ((connect d)\<lparr>working := d1\<rparr>)
       = (c2, pids, products_created s)" and
    s3: "order_stage cfg (sum_season_id s) (get_brand_ids cfg d1) (get_location_ids cfg d1) df c2
       = Inr (c3, om, orders_created s)" and
    s4: "item_stage L pids om df c3 = Inr (c4, items_added s, items_skipped s)" and
    c': "c' = commit (c4\<lparr>working := update_totals (sum_season_id s) (working c4)\<rparr>)"
    by (rule body_stages)
  note f1 = season_stage_frame [OF s1]
  note f2 = product_stage_frame [OF s2]
  from s3 have f3: "brands (working c3) = brands (working c2)"
    "products (working c3) = products (working c2)"
    by (auto simp: order_stage_def dest: order_loop_frame)
  from s4 have f4: "brands (working c4) = brands (working c3)"
    "products (working c4) = products (working c3)"
    by (auto simp: item_stage_def dest: item_loop_frame)
  have e: "d' = update_totals (sum_season_id s) (working c4)"
    by (simp add: d' c' commit_def)
  have pb: "brands d' = brands (working c2)" "products d' = products (working c2)"
    by (simp_all add: e update_totals_def f3 f4)
  show br: "brands d' = brands d"
    using pb f2 f1 by (simp add: connect_def)
  from f2 obtain new where new: "products (working c2) = products d1 @ new" by auto
  with pb f1 have pr: "products d' = products d @ new" by (simp add: connect_def)
  then show "\<exists>new. products d' = products d @ new" ..
  have bi: "get_brand_ids cfg d' = get_brand_ids cfg d1"
    by (rule get_brand_ids_cong) (simp add: br f1 connect_def)
  show "\<forall>r\<in>set (drop_duplicates_upc [] df).
           existing_products d' (strip (c_upc r)) \<noteq> None
           \<or> resolve (get_brand_ids cfg d') (c_brand r) = None"
  proof
    fix r
    assume r: "r \<in> set (drop_duplicates_upc [] df)"
    let ?u = "strip (c_upc r)"
    from s2 have l: "product_loop (existing_products d1) (get_brand_ids cfg d1)
          (sum_season_id s) (drop_duplicates_upc [] df)
          ((connect d)\<lparr>working := d1\<rparr>, Map.empty, 0) = (c2, pids, products_created s)"
      by (simp add: product_stage_def)
    note cov = product_loop_covers [OF l r]
    show "existing_products d' ?u \<noteq> None \<or> resolve (get_brand_ids cfg d') (c_brand r) = None"
    proof (rule disjE [OF cov])
      assume "existing_products d1 ?u \<noteq> None"
      then have "\<exists>p\<in>set (products d1). p_upc p = Some ?u"
        by (rule existing_products_iff [THEN iffD1])
      with new pb have "\<exists>p\<in>set (products d'). p_upc p = Some ?u" by auto
      then have "existing_products d' ?u \<noteq> None"
        by (rule existing_products_iff [THEN iffD2])
      then show ?thesis ..
    next
      assume "resolve (get_brand_ids cfg d1) (c_brand r) = None
              \<or> (\<exists>p\<in>set (products (working c2)). p_upc p = Some ?u)"
      then show ?thesis
      proof
        assume "resolve (get_brand_ids cfg d1) (c_brand r) = None"
        then show ?thesis by (simp add: bi)
      next
        assume "\<exists>p\<in>set (products (working c2)). p_upc p = Some ?u"
        with pb have "\<exists>p\<in>set (products d'). p_upc p = Some ?u" by simp
        then have "existing_products d' ?u \<noteq> None"
        by (rule existing_products_iff [THEN iffD2])
      then show ?thesis ..
      qed
    qed
  qed
qed

text \<open>
  Claim C8, as the scripts have it: after a completed run, a second run on the same sheet
  and on the database the first one left adds no product row, whether it completes (then
  it reports zero products created) or raises. For the first row of each UPC the second
  run either finds the UPC in the existing-products map and reuses it, or cannot resolve
  the row's brand and skips the UPC as the first run did.
\<close>

theorem rerun_creates_no_products:
  assumes "clean L sheet = Inr df"
    and "main cfg L sheet d = (d1, Inr s1)"
    and "main cfg L sheet d1 = (d2, r2)"
  shows "products d2 = products d1
       \<and> (\<forall>s2. r2 = Inr s2 \<longrightarrow> products_created s2 = 0)
       \<and> (\<forall>r\<in>set (drop_duplicates_upc [] df).
             existing_products d1 (strip (c_upc r)) \<noteq> None
             \<or> resolve (get_brand_ids cfg d1) (c_brand r) = None)"
proof -
  note first = completed_run_products [OF assms(1,2)]
  have third: "\<forall>r\<in>set (drop_duplicates_upc [] df).
             existing_products d1 (strip (c_upc r)) \<noteq> None
             \<or> resolve (get_brand_ids cfg d1) (c_brand r) = None"
    by (rule first(3))
  have "products d2 = products d1 \<and> (\<forall>s2. r2 = Inr s2 \<longrightarrow> products_created s2 = 0)"
  proof (cases "body cfg L df (connect d1)")
    case (Inl x)
    obtain e c' where x: "x = (e, c')" by (cases x)
    from body_raises [OF Inl [unfolded x]] have "committed c' = d1"
      by (simp add: connect_def)
    with assms(1,3) Inl x have "d2 = d1" and "r2 = Inl e"
      by (simp_all add: main_def rollback_def)
    then show ?thesis by simp
  next
    case (Inr y)
    obtain c' s2 where y: "y = (c', s2)" by (cases y)
    from assms(1,3) Inr y have d2: "d2 = committed c'" and r2: "r2 = Inr s2"
      by (simp_all add: main_def)
    from Inr [unfolded y] obtain da c2 pids c3 om c4 where
      s1: "season_stage cfg (working (connect d1)) = (da, sum_season_id s2)" and
      s2: "product_stage (get_brand_ids cfg da) (sum_season_id s2) df
             ((connect d1)\<lparr>working := da\<rparr>) = (c2, pids, products_created s2)" and
      s3: "order_stage cfg (sum_season_id s2) (get_brand_ids cfg da) (get_location_ids cfg da)
             df c2 = Inr (c3, om, orders_created s2)" and
      s4: "item_stage L pids om df c3 = Inr (c4, items_added s2, items_skipped s2)" and
      c': "c' = commit (c4\<lparr>working := update_totals (sum_season_id s2) (working c4)\<rparr>)"
      by (rule body_stages)
    note f1 = season_stage_frame [OF s1]
    have bi: "get_brand_ids cfg da = get_brand_ids cfg d1"
      by (rule get_brand_ids_cong) (simp add: f1 connect_def)
    have ei: "existing_products da = existing_products d1"
      by (rule existing_products_cong) (simp add: f1 connect_def)
    from s2 have l: "product_loop (existing_products d1) (get_brand_ids cfg d1)
          (sum_season_id s2) (drop_duplicates_upc [] df)
          ((connect d1)\<lparr>working := da\<rparr>, Map.empty, 0) = (c2, pids, products_created s2)"
      by (simp add: product_stage_def bi ei)
    from product_loop_idle [OF third l]
    have idle: "c2 = (connect d1)\<lparr>working := da\<rparr>" "products_created s2 = 0" by simp_all
    from s3 have f3: "products (working c3) = products (working c2)"
      by (auto simp: order_stage_def dest: order_loop_frame)
    from s4 have f4: "products (working c4) = products (working c3)"
      by (auto simp: item_stage_def dest: item_loop_frame)
    have "products d2 = products (working c4)"
      by (simp add: d2 c' commit_def update_totals_def)
    with f3 f4 idle f1 have "products d2 = products d1" by (simp add: connect_def)
    with idle r2 show ?thesis by simp
  qed
  with third show ?thesis by simp
qed

text \<open>
  The scenario's row and a row of an unknown brand, imported twice by F25: the second run
  finds the first UPC, skips the second again and creates no product.
\<close>

theorem rerun_creates_no_products_witness:
  "clean plain_lib [prana_row, acme_row]
     = Inr [prana_crow, prana_crow\<lparr>c_upc := ''777'', c_brand := Text ''Acme''\<rparr>]
   \<and> main f25 plain_lib [prana_row, acme_row] shop_db
       = (prana_result, Inr \<lparr>sum_season_id = 1, products_created = 1, orders_created = 1,
                              items_added = 1, items_skipped = 1\<rparr>)
   \<and> products (fst (main f25 plain_lib [prana_row, acme_row] prana_result))
       = products prana_result
   \<and> snd (main f25 plain_lib [prana_row, acme_row] prana_result)
       = Inr \<lparr>sum_season_id = 1, products_created = 0, orders_created = 1,
              items_added = 1, items_skipped = 1\<rparr>
   \<and> existing_products prana_result ''012345'' = Some 1
   \<and> existing_products prana_result ''777'' = None
   \<and> resolve (get_brand_ids f25 prana_result) (Text ''Acme'') = None"
proof -
  let ?sheet = "[prana_row, acme_row]"
  let ?m2 = "main f25 plain_lib ?sheet prana_result"
  have h1: "clean plain_lib ?sheet
     = Inr [prana_crow, prana_crow\<lparr>c_upc := ''777'', c_brand := Text ''Acme''\<rparr>]"
    by code_simp
  have h2: "main f25 plain_lib ?sheet shop_db
       = (prana_result, Inr \<lparr>sum_season_id = 1, products_created = 1, orders_created = 1,
                              items_added = 1, items_skipped = 1\<rparr>)"
    by code_simp
  have h3: "?m2 = (fst ?m2, snd ?m2)" by simp
  note t = rerun_creates_no_products [OF h1 h2 h3]
  from t have a: "products (fst ?m2) = products prana_result" by (rule conjunct1)
  have b: "snd ?m2 = Inr \<lparr>sum_season_id = 1, products_created = 0, orders_created = 1,
              items_added = 1, items_skipped = 1\<rparr>"
    by code_simp
  have c: "existing_products prana_result ''012345'' = Some 1" by code_simp
  have d: "existing_products prana_result ''777'' = None" by code_simp
  have e: "resolve (get_brand_ids f25 prana_result) (Text ''Acme'') = None" by code_simp
  show ?thesis
    by (rule conjI [OF h1 conjI [OF h2 conjI [OF a conjI [OF b conjI [OF c conjI [OF d e]]]]]])
qed

text \<open>
  Claim C8 as stated fails in its middle part: after the import of a row of an unknown
  brand the UPC of that row is in no product, so the second run does not find it in the
  existing-products map; it skips it again, and again no product is created.
\<close>

theorem rerun_upc_of_unknown_brand_not_found:
  "main f25 plain_lib [acme_row] shop_db
     = (acme_result, Inr \<lparr>sum_season_id = 1, products_created = 0, orders_created = 0,
                            items_added = 0, items_skipped = 1\<rparr>)
   \<and> existing_products acme_result ''777'' = None
   \<and> main f25 plain_lib [acme_row] acme_result
       = (acme_result, Inr \<lparr>sum_season_id = 1, products_created = 0, orders_created = 0,
                              items_added = 0, items_skipped = 1\<rparr>)"
  by code_simp

end
